theory Spec2Isabelle
  imports Main "HOL-Library.AList" "HOL-Library.Multiset"
begin

section \<open>Python values\<close>

text \<open>
  The scripts \<^verbatim>\<open>OLD/harv.py\<close> and \<^verbatim>\<open>OLD/harv_titles_votes.py\<close> handle decoded JSON
  and plain Python values. A value is one of the JSON shapes; a dictionary is an
  association list read with \<open>map_of\<close> (the first binding of a key is the binding) and
  written with \<open>AList.update\<close> (an existing key keeps its place, a new key goes last, as
  in a Python dict). JSON floating point numbers are left out. A Python \<^verbatim>\<open>str\<close>
  value is the list of its Unicode code points (\<open>pystr\<close>); \<open>ustr\<close> embeds the
  literals of the scripts. The keys of dictionaries, the log messages and the file names
  stay \<open>string\<close>s: every key the scripts read or write is an ASCII literal.
\<close>

type_synonym pystr = "nat list"

definition ustr :: "string \<Rightarrow> pystr" where
  "ustr s = map of_char s"

datatype pyval =
    PNone
  | PBool bool
  | PInt int
  | PStr pystr
  | PList "pyval list"
  | PDict "(string \<times> pyval) list"

type_synonym pydict = "(string \<times> pyval) list"

datatype exn =
    AttributeError
  | TypeError
  | ValueError
  | RequestException
  | JSONDecodeError
  | WebDriverException

text \<open>Truth value of an object in a condition (\<^verbatim>\<open>if submission_hash:\<close>).\<close>

fun truthy :: "pyval \<Rightarrow> bool" where
  "truthy PNone = False"
| "truthy (PBool b) = b"
| "truthy (PInt i) = (i \<noteq> 0)"
| "truthy (PStr s) = (s \<noteq> [])"
| "truthy (PList xs) = (xs \<noteq> [])"
| "truthy (PDict d) = (d \<noteq> [])"

text \<open>\<^verbatim>\<open>d.get(k, default)\<close> on a dict, and \<^verbatim>\<open>d[k] = v\<close>.\<close>

definition dict_get :: "pydict \<Rightarrow> string \<Rightarrow> pyval \<Rightarrow> pyval" where
  "dict_get d k dflt = (case map_of d k of Some v \<Rightarrow> v | None \<Rightarrow> dflt)"

definition dict_set :: "pydict \<Rightarrow> string \<Rightarrow> pyval \<Rightarrow> pydict" where
  "dict_set d k v = AList.update k v d"

text \<open>
  \<^verbatim>\<open>x.get(k, default)\<close> on any value: only a dict has the method, every other value
  raises AttributeError.
\<close>

fun py_get :: "pyval \<Rightarrow> string \<Rightarrow> pyval \<Rightarrow> exn + pyval" where
  "py_get (PDict d) k dflt = Inr (dict_get d k dflt)"
| "py_get _ k dflt = Inl AttributeError"

text \<open>\<^verbatim>\<open>len(x)\<close>: strings, lists and dicts are sized, the rest raises TypeError.\<close>

fun py_len :: "pyval \<Rightarrow> exn + nat" where
  "py_len (PStr s) = Inr (length s)"
| "py_len (PList xs) = Inr (length xs)"
| "py_len (PDict d) = Inr (length d)"
| "py_len _ = Inl TypeError"

text \<open>
  Iterating a value (\<^verbatim>\<open>list.extend(x)\<close>): a list gives its elements, a string its
  characters, a dict its keys; the rest raises TypeError.
\<close>

fun py_iter :: "pyval \<Rightarrow> exn + pyval list" where
  "py_iter (PList xs) = Inr xs"
| "py_iter (PStr s) = Inr (map (\<lambda>c. PStr [c]) s)"
| "py_iter (PDict d) = Inr (map (\<lambda>kv. PStr (ustr (fst kv))) d)"
| "py_iter _ = Inl TypeError"

text \<open>
  \<^verbatim>\<open>range(1, total_pages + 1)\<close>: an int gives the pages \<open>1..n\<close>, a bool counts as
  0 or 1, every other value raises TypeError at the addition.
\<close>

fun py_range_from_1 :: "pyval \<Rightarrow> exn + nat list" where
  "py_range_from_1 (PInt n) = Inr [1..<Suc (nat n)]"
| "py_range_from_1 (PBool b) = Inr (if b then [1] else [])"
| "py_range_from_1 _ = Inl TypeError"

text \<open>
  Formatting a value into a template (\<^verbatim>\<open>str.format\<close>, f-strings): a string is
  inserted as it is, any other value through Python's \<^verbatim>\<open>str()\<close>, which is the
  parameter \<open>str_of\<close>.
\<close>

definition py_format :: "(pyval \<Rightarrow> pystr) \<Rightarrow> pyval \<Rightarrow> pystr" where
  "py_format str_of v = (case v of PStr s \<Rightarrow> s | _ \<Rightarrow> str_of v)"

section \<open>Text operations\<close>

text \<open>
  The decimal digits of Unicode (category Nd) and their values are a table of the
  interpreter (\<^verbatim>\<open>unicodedata.decimal\<close>). Below 128 the only ones are \<open>0\<close> to \<open>9\<close>;
  from 128 on the table is the parameter \<open>decimal\<close>. The regular expression class
  \<^verbatim>\<open>\d\<close> on a \<^verbatim>\<open>str\<close> pattern and \<^verbatim>\<open>int()\<close> both read this table.
\<close>

definition digit_of :: "(nat \<Rightarrow> nat option) \<Rightarrow> nat \<Rightarrow> nat option" where
  "digit_of decimal c =
     (if c < 128 then (if 48 \<le> c \<and> c \<le> 57 then Some (c - 48) else None) else decimal c)"

definition is_digit :: "(nat \<Rightarrow> nat option) \<Rightarrow> nat \<Rightarrow> bool" where
  "is_digit decimal c \<longleftrightarrow> digit_of decimal c \<noteq> None"

definition digit_val :: "(nat \<Rightarrow> nat option) \<Rightarrow> nat \<Rightarrow> int" where
  "digit_val decimal c = (case digit_of decimal c of Some v \<Rightarrow> int v | None \<Rightarrow> 0)"

text \<open>
  \<^verbatim>\<open>re.search(r'(\d+)', text)\<close>: the start positions are tried from the left; at the
  first position where a digit stands the greedy \<^verbatim>\<open>\d+\<close> takes the whole run. The
  result is \<^verbatim>\<open>match.group(1)\<close>, or \<open>None\<close> when there is no match.
\<close>

fun re_search_digits :: "(nat \<Rightarrow> nat option) \<Rightarrow> pystr \<Rightarrow> pystr option" where
  "re_search_digits decimal [] = None"
| "re_search_digits decimal (c # cs) =
     (if is_digit decimal c then Some (takeWhile (is_digit decimal) (c # cs))
      else re_search_digits decimal cs)"

text \<open>
  \<^verbatim>\<open>int(s)\<close> on a string of decimal digits. A string of more digits than the
  interpreter's limit (\<^verbatim>\<open>sys.get_int_max_str_digits()\<close>, 4300 unless it is changed;
  leading zeros count) raises ValueError.
\<close>

definition int_max_str_digits :: nat where
  "int_max_str_digits = 4300"

definition py_int :: "(nat \<Rightarrow> nat option) \<Rightarrow> pystr \<Rightarrow> exn + int" where
  "py_int decimal ds =
     (if length ds > int_max_str_digits then Inl ValueError
      else Inr (foldl (\<lambda>acc c. 10 * acc + digit_val decimal c) 0 ds))"

text \<open>
  The whitespace of \<^verbatim>\<open>str.strip()\<close> and \<^verbatim>\<open>str.isspace()\<close>: all the code points
  for which Python's \<^verbatim>\<open>chr(c).isspace()\<close> holds.
\<close>

definition is_space :: "nat \<Rightarrow> bool" where
  "is_space c \<longleftrightarrow>
     c \<in> set [0x09, 0x0A, 0x0B, 0x0C, 0x0D, 0x1C, 0x1D, 0x1E, 0x1F, 0x20, 0x85, 0xA0,
               0x1680, 0x2000, 0x2001, 0x2002, 0x2003, 0x2004, 0x2005, 0x2006, 0x2007,
               0x2008, 0x2009, 0x200A, 0x2028, 0x2029, 0x202F, 0x205F, 0x3000]"

text \<open>\<^verbatim>\<open>s.strip()\<close>: leading and trailing whitespace removed.\<close>

definition py_strip :: "pystr \<Rightarrow> pystr" where
  "py_strip s = rev (dropWhile is_space (rev (dropWhile is_space s)))"

definition ascii_lower :: "nat \<Rightarrow> nat" where
  "ascii_lower c = (if 65 \<le> c \<and> c \<le> 90 then c + 32 else c)"

text \<open>
  \<^verbatim>\<open>s.lower()\<close>: on a string of code points below 128 the letters \<open>A\<close> to \<open>Z\<close>
  become \<open>a\<close> to \<open>z\<close>. On any other string the result is given by the case tables
  of the interpreter, the parameter \<open>ulower\<close>.
\<close>

definition py_lower :: "(pystr \<Rightarrow> pystr) \<Rightarrow> pystr \<Rightarrow> pystr" where
  "py_lower ulower s =
     (if list_all (\<lambda>c. c < 128) s then map ascii_lower s else ulower s)"

section \<open>The vote-extraction rule\<close>

text \<open>
  The loop shared by \<^verbatim>\<open>extract_votes\<close> (harv.py, lines 145-154) and
  \<^verbatim>\<open>extract_submission_details\<close> (harv_titles_votes.py, lines 148-157):
  \<^verbatim>\<open>
  for idx, votes_text in enumerate(votes_texts, start=1):
      match = re.search(r'(\d+)', votes_text)
      if match:
          votes = int(match.group(1))
          break
  \<close>
  with \<^verbatim>\<open>votes = None\<close> before it. \<open>Inr\<close> is the value of \<^verbatim>\<open>votes\<close> after the
  loop; \<open>Inl\<close> is the exception of \<^verbatim>\<open>int()\<close>, which leaves the loop before
  \<^verbatim>\<open>votes\<close> is assigned.
\<close>

fun votes_loop :: "(nat \<Rightarrow> nat option) \<Rightarrow> pystr list \<Rightarrow> exn + int option" where
  "votes_loop decimal [] = Inr None"
| "votes_loop decimal (votes_text # rest) =
     (case re_search_digits decimal votes_text of
        Some m \<Rightarrow>
          (case py_int decimal m of
             Inl e \<Rightarrow> Inl e
           | Inr n \<Rightarrow> Inr (Some n))
      | None \<Rightarrow> votes_loop decimal rest)"

text \<open>
  The \<^verbatim>\<open>try\<close> around the loop: harv.py's \<^verbatim>\<open>except Exception\<close> leaves \<^verbatim>\<open>votes\<close>
  as it was (\<open>None\<close>), harv_titles_votes.py's sets \<^verbatim>\<open>votes = None\<close>.
\<close>

definition votes_after_try :: "exn + int option \<Rightarrow> int option" where
  "votes_after_try r = (case r of Inl e \<Rightarrow> None | Inr votes \<Rightarrow> votes)"

definition votes_value :: "int option \<Rightarrow> pyval" where
  "votes_value votes = (case votes of None \<Rightarrow> PNone | Some n \<Rightarrow> PInt n)"

section \<open>The detail extractors\<close>

text \<open>
  What the browser does is input. An \<open>attempt\<close> is a call that raises or returns.
  For harv.py a session is: building the Chrome options raises (this code stands
  outside every \<^verbatim>\<open>try\<close>), starting the driver raises, \<^verbatim>\<open>driver.get\<close> raises, or the
  page loads and \<^verbatim>\<open>execute_script\<close> raises or returns the trimmed texts of the
  vote markers.
\<close>

datatype 'a attempt = Raises | Returns 'a

datatype session =
    OptionsRaises
  | InitRaises
  | GetRaises
  | Script "pystr list attempt"

text \<open>
  For harv_titles_votes.py the options are built by the harvester; a session is: starting
  the driver raises, \<^verbatim>\<open>driver.get\<close> raises, or the page is rendered, and then the title
  marker's \<^verbatim>\<open>.text\<close> (\<^verbatim>\<open>find_element\<close>) and the vote markers' \<^verbatim>\<open>.text\<close>s
  (\<^verbatim>\<open>find_elements\<close>) each raise or return.
\<close>

datatype session_tv =
    InitRaises_tv
  | GetRaises_tv
  | Rendered "pystr attempt" "pystr list attempt"

definition SUBMISSION_URL_TEMPLATE :: pystr where
  "SUBMISSION_URL_TEMPLATE = ustr ''https://editfest.filmsupply.com/submissions/''"

text \<open>
  harv.py, \<^verbatim>\<open>extract_votes(submission)\<close>. \<open>Inl\<close> is an exception that leaves the
  function; every other failure is caught inside and leaves \<^verbatim>\<open>votes = None\<close>.
\<close>

definition extract_votes ::
  "(nat \<Rightarrow> nat option) \<Rightarrow> session \<Rightarrow> pydict \<Rightarrow> exn + pydict" where
  "extract_votes decimal b submission =
     (case b of
        OptionsRaises \<Rightarrow> Inl WebDriverException
      | InitRaises \<Rightarrow> Inr (dict_set submission ''votes'' PNone)
      | GetRaises \<Rightarrow> Inr (dict_set submission ''votes'' PNone)
      | Script Raises \<Rightarrow> Inr (dict_set submission ''votes'' PNone)
      | Script (Returns votes_texts) \<Rightarrow>
          Inr (dict_set submission ''votes''
                 (votes_value (votes_after_try (votes_loop decimal votes_texts)))))"

text \<open>
  harv_titles_votes.py, \<^verbatim>\<open>extract_submission_details(submission, options)\<close>. Every
  failure is caught inside. When the driver does not start, the function returns before
  it sets \<^verbatim>\<open>'url'\<close>.
\<close>

definition title_of_attempt :: "pystr attempt \<Rightarrow> pyval" where
  "title_of_attempt t =
     (case t of
        Raises \<Rightarrow> PNone
      | Returns text \<Rightarrow>
          (let title_text = py_strip text in
           if title_text \<noteq> [] then PStr title_text else PNone))"

definition votes_of_attempt :: "(nat \<Rightarrow> nat option) \<Rightarrow> pystr list attempt \<Rightarrow> pyval" where
  "votes_of_attempt decimal v =
     (case v of
        Raises \<Rightarrow> PNone
      | Returns texts \<Rightarrow>
          votes_value (votes_after_try (votes_loop decimal (map py_strip texts))))"

definition extract_submission_details ::
  "(nat \<Rightarrow> nat option) \<Rightarrow> (pyval \<Rightarrow> pystr) \<Rightarrow> session_tv \<Rightarrow> pydict \<Rightarrow> pydict" where
  "extract_submission_details decimal str_of b submission =
     (let submission_hash = dict_get submission ''hash'' PNone;
          submission_url = SUBMISSION_URL_TEMPLATE @ py_format str_of submission_hash
      in case b of
           InitRaises_tv \<Rightarrow>
             dict_set (dict_set submission ''title'' PNone) ''votes'' PNone
         | GetRaises_tv \<Rightarrow>
             dict_set (dict_set (dict_set submission ''title'' PNone) ''votes'' PNone)
               ''url'' (PStr submission_url)
         | Rendered t v \<Rightarrow>
             dict_set (dict_set (dict_set submission ''title'' (title_of_attempt t))
               ''votes'' (votes_of_attempt decimal v)) ''url'' (PStr submission_url))"

section \<open>The detail harvesters\<close>

text \<open>
  \<^verbatim>\<open>extract_all_votes\<close> and \<^verbatim>\<open>extract_all_submission_details\<close> submit one task per
  record and collect the futures with \<^verbatim>\<open>as_completed\<close>. \<open>task i s\<close> is what the future
  of the \<open>i\<close>-th record gives (\<^verbatim>\<open>future.result()\<close> returns or raises); \<open>completed\<close> is
  the order in which the futures complete, a permutation of the indices
  \<open>0..<length submissions\<close>.
\<close>

definition extract_all_votes ::
  "(nat \<Rightarrow> pydict \<Rightarrow> exn + pydict) \<Rightarrow> nat list \<Rightarrow> pydict list \<Rightarrow> pydict list" where
  "extract_all_votes task completed submissions =
     map (\<lambda>i. case task i (submissions ! i) of
                 Inr updated_submission \<Rightarrow> updated_submission
               | Inl e \<Rightarrow> dict_set (submissions ! i) ''votes'' PNone)
       completed"

definition extract_all_submission_details ::
  "(nat \<Rightarrow> pydict \<Rightarrow> exn + pydict) \<Rightarrow> nat list \<Rightarrow> pydict list \<Rightarrow> pydict list" where
  "extract_all_submission_details task completed submissions =
     map (\<lambda>i. case task i (submissions ! i) of
                 Inr updated_submission \<Rightarrow> updated_submission
               | Inl e \<Rightarrow> dict_set (dict_set (submissions ! i) ''title'' PNone) ''votes'' PNone)
       completed"

section \<open>The page fetcher and the listing harvester\<close>

text \<open>
  What \<^verbatim>\<open>requests.get\<close> does is input: it raises, or it returns a response with a
  status code and a body, where \<^verbatim>\<open>response.json()\<close> raises (\<open>None\<close>) or returns the
  decoded value.
\<close>

datatype http_outcome =
    RequestRaises
  | Response int "pyval option"

text \<open>
  The body of the \<^verbatim>\<open>try\<close> in \<^verbatim>\<open>fetch_page\<close> (the same in both scripts): \<open>Inl\<close> is
  an exception raised inside it.
\<close>

fun fetch_page_try :: "http_outcome \<Rightarrow> exn + pyval" where
  "fetch_page_try RequestRaises = Inl RequestException"
| "fetch_page_try (Response status_code body) =
     (if status_code \<noteq> 200 then Inr (PList [])
      else case body of
             None \<Rightarrow> Inl JSONDecodeError
           | Some data \<Rightarrow>
               (case py_get data ''data'' (PList []) of
                  Inl e \<Rightarrow> Inl e
                | Inr submissions \<Rightarrow>
                    (case py_len submissions of
                       Inl e \<Rightarrow> Inl e
                     | Inr n \<Rightarrow> Inr submissions)))"

text \<open>\<^verbatim>\<open>fetch_page(page_number)\<close>: \<^verbatim>\<open>except Exception\<close> returns the empty list.\<close>

definition fetch_page :: "(nat \<Rightarrow> http_outcome) \<Rightarrow> nat \<Rightarrow> exn + pyval" where
  "fetch_page api page_number =
     (case fetch_page_try (api page_number) of
        Inl e \<Rightarrow> Inr (PList [])
      | Inr submissions \<Rightarrow> Inr submissions)"

text \<open>
  The body of the loop of \<^verbatim>\<open>fetch_all_submissions\<close> over the completed futures:
  what one future adds to \<^verbatim>\<open>all_submissions\<close>. A future that raises, or a result
  that \<^verbatim>\<open>extend\<close> cannot iterate, is logged and adds nothing.
\<close>

definition contribution :: "exn + pyval \<Rightarrow> pyval list" where
  "contribution result =
     (case result of
        Inl e \<Rightarrow> []
      | Inr submissions \<Rightarrow>
          (case py_iter submissions of
             Inl e \<Rightarrow> []
           | Inr xs \<Rightarrow> xs))"

fun merge_completed :: "(exn + pyval) list \<Rightarrow> pyval list \<Rightarrow> pyval list" where
  "merge_completed [] all_submissions = all_submissions"
| "merge_completed (result # rest) all_submissions =
     merge_completed rest (all_submissions @ contribution result)"

text \<open>
  \<^verbatim>\<open>fetch_all_submissions(total_pages)\<close>: one task per page of
  \<^verbatim>\<open>range(1, total_pages + 1)\<close>; \<open>completed\<close> is the order in which the futures
  complete, as indices into that range.
\<close>

definition fetch_all_submissions ::
  "(nat \<Rightarrow> http_outcome) \<Rightarrow> nat list \<Rightarrow> pyval \<Rightarrow> exn + pyval list" where
  "fetch_all_submissions api completed total_pages =
     (case py_range_from_1 total_pages of
        Inl e \<Rightarrow> Inl e
      | Inr pages \<Rightarrow>
          Inr (merge_completed (map (\<lambda>i. fetch_page api (pages ! i)) completed) []))"

section \<open>The runs of the two scripts\<close>

text \<open>
  A run is the list of its effects, in order: the HTTP requests, the logging calls of
  \<^verbatim>\<open>main\<close> (level and message, without the interpolated values), the detail tasks
  submitted, the files written, and an exception that leaves \<^verbatim>\<open>main\<close>. The logging
  calls inside the workers are not part of it. A CSV file is the list of its rows, a row
  the list of its fields before quoting.
\<close>

datatype level = INFO | WARNING | ERROR

datatype event =
    HttpGet nat
  | Log level string
  | DetailTask pydict
  | CsvWritten string "pystr list list"
  | TextWritten string "pystr list"
  | Uncaught exn

text \<open>The pages requested in a run, in order.\<close>

fun requested :: "event \<Rightarrow> nat list" where
  "requested (HttpGet n) = [n]"
| "requested _ = []"

definition requests :: "event list \<Rightarrow> nat list" where
  "requests run = concat (map requested run)"

text \<open>
  Step 1 of \<^verbatim>\<open>main\<close> (both scripts): the \<^verbatim>\<open>try\<close> around the request of page 1.
  \<open>Inl\<close> is the message of the \<^verbatim>\<open>logging.error\<close> before \<^verbatim>\<open>return\<close>, \<open>Inr\<close> the
  value of \<^verbatim>\<open>last_page\<close>.
\<close>

fun discover_last_page :: "string \<Rightarrow> http_outcome \<Rightarrow> string + pyval" where
  "discover_last_page what RequestRaises = Inl ''Exception while fetching the first page''"
| "discover_last_page what (Response status_code body) =
     (if status_code \<noteq> 200 then Inl (''Failed to retrieve '' @ what @ '': Status code'')
      else case body of
             None \<Rightarrow> Inl ''Exception while fetching the first page''
           | Some data \<Rightarrow>
               (case py_get data ''meta'' (PDict []) of
                  Inl e \<Rightarrow> Inl ''Exception while fetching the first page''
                | Inr meta \<Rightarrow>
                    (case py_get meta ''last_page'' (PInt 1) of
                       Inl e \<Rightarrow> Inl ''Exception while fetching the first page''
                     | Inr last_page \<Rightarrow> Inr last_page)))"

text \<open>
  \<^verbatim>\<open>csv.DictWriter\<close>: \<^verbatim>\<open>_dict_to_list\<close> with the default \<^verbatim>\<open>extrasaction='raise'\<close>
  and \<^verbatim>\<open>restval=''\<close>; \<^verbatim>\<open>writerows\<close> writes the rows up to the first one that
  raises. The writer turns \<^verbatim>\<open>None\<close> into the empty field, a string into itself and
  any other value into its \<^verbatim>\<open>str()\<close>.
\<close>

definition dict_to_list :: "string list \<Rightarrow> pydict \<Rightarrow> exn + pyval list" where
  "dict_to_list fieldnames rowdict =
     (if filter (\<lambda>k. k \<notin> set fieldnames) (map fst rowdict) \<noteq> [] then Inl ValueError
      else Inr (map (\<lambda>key. dict_get rowdict key (PStr [])) fieldnames))"

fun writerows :: "string list \<Rightarrow> pydict list \<Rightarrow> pyval list list \<times> exn option" where
  "writerows fieldnames [] = ([], None)"
| "writerows fieldnames (rowdict # rest) =
     (case dict_to_list fieldnames rowdict of
        Inl e \<Rightarrow> ([], Some e)
      | Inr row \<Rightarrow>
          (case writerows fieldnames rest of (rows, err) \<Rightarrow> (row # rows, err)))"

definition csv_field :: "(pyval \<Rightarrow> pystr) \<Rightarrow> pyval \<Rightarrow> pystr" where
  "csv_field str_of v = (case v of PNone \<Rightarrow> [] | PStr s \<Rightarrow> s | _ \<Rightarrow> str_of v)"

text \<open>
  The inputs of a run: the outcome of the request of page 1 in \<^verbatim>\<open>main\<close>, the outcomes
  of the requests of the page tasks, the browser session of each detail task, the two
  completion orders, and the interpreter: Python's \<^verbatim>\<open>str()\<close> on values that are
  not strings, the decimal digits from code point 128 on, and \<^verbatim>\<open>str.lower()\<close> on
  strings that are not ASCII.
\<close>

record 'b env =
  first_page :: http_outcome
  listing :: "nat \<Rightarrow> http_outcome"
  fetch_completed :: "nat list"
  browser :: "nat \<Rightarrow> 'b"
  detail_completed :: "nat list"
  py_str :: "pyval \<Rightarrow> pystr"
  unicode_decimal :: "nat \<Rightarrow> nat option"
  unicode_lower :: "pystr \<Rightarrow> pystr"

subsection \<open>harv.py\<close>

text \<open>
  Step 3 of \<^verbatim>\<open>main\<close>: the loop over \<^verbatim>\<open>all_submissions\<close> with the module's lists
  \<^verbatim>\<open>submissions_data\<close> and \<^verbatim>\<open>submission_urls\<close>. An entry that is not a dict has no
  \<^verbatim>\<open>get\<close>: the AttributeError leaves the loop and \<^verbatim>\<open>main\<close>.
\<close>

record prep =
  submissions_data :: "pydict list"
  submission_urls :: "pystr list"
  prep_log :: "event list"

text \<open>The test \<^verbatim>\<open>if submission_hash:\<close> on \<^verbatim>\<open>submission.get('hash')\<close>.\<close>

definition has_hash :: "pydict \<Rightarrow> bool" where
  "has_hash submission \<longleftrightarrow> truthy (dict_get submission ''hash'' PNone)"

definition submission_url_of :: "(pyval \<Rightarrow> pystr) \<Rightarrow> pydict \<Rightarrow> pystr" where
  "submission_url_of str_of submission =
     SUBMISSION_URL_TEMPLATE @ py_format str_of (dict_get submission ''hash'' PNone)"

text \<open>The dict appended to \<^verbatim>\<open>submissions_data\<close>.\<close>

definition listing_record :: "(pyval \<Rightarrow> pystr) \<Rightarrow> pydict \<Rightarrow> pydict" where
  "listing_record str_of submission =
     [(''url'', PStr (submission_url_of str_of submission)),
      (''title'', dict_get submission ''title'' (PStr (ustr ''No Title''))),
      (''name'', dict_get submission ''name'' (PStr (ustr ''No Name''))),
      (''category'', dict_get submission ''category'' (PStr (ustr ''No Category''))),
      (''hash'', dict_get submission ''hash'' PNone)]"

fun prepare :: "(pyval \<Rightarrow> pystr) \<Rightarrow> pyval list \<Rightarrow> prep \<Rightarrow> prep \<times> exn option" where
  "prepare str_of [] st = (st, None)"
| "prepare str_of (PDict submission # rest) st =
     (if has_hash submission then
        prepare str_of rest
          \<lparr>submissions_data = submissions_data st @ [listing_record str_of submission],
           submission_urls = submission_urls st @ [submission_url_of str_of submission],
           prep_log = prep_log st @ [Log INFO ''Added submission'']\<rparr>
      else
        prepare str_of rest
          (st\<lparr>prep_log := prep_log st @ [Log WARNING ''Submission without hash found'']\<rparr>))"
| "prepare str_of (submission # rest) st = (st, Some AttributeError)"

definition keys_harv :: "string list" where
  "keys_harv = [''url'', ''title'', ''name'', ''category'', ''votes'']"

text \<open>Step 5: the \<^verbatim>\<open>try\<close> that writes \<^verbatim>\<open>submissions.csv\<close>.\<close>

definition write_csv :: "(pyval \<Rightarrow> pystr) \<Rightarrow> pydict list \<Rightarrow> event list" where
  "write_csv str_of updated_submissions =
     (case writerows keys_harv updated_submissions of
        (rows, err) \<Rightarrow>
          [CsvWritten ''submissions.csv''
             (map ustr keys_harv # map (map (csv_field str_of)) rows),
           (case err of
              None \<Rightarrow> Log INFO ''Submission data has been saved''
            | Some e \<Rightarrow> Log ERROR ''Error writing to CSV'')])"

definition main :: "session env \<Rightarrow> event list" where
  "main env =
     HttpGet 1 #
     (case discover_last_page ''page 1'' (first_page env) of
        Inl msg \<Rightarrow> [Log ERROR msg]
      | Inr last_page \<Rightarrow>
          Log INFO ''Total pages to fetch'' # Log INFO ''Fetching all submissions...'' #
          (case py_range_from_1 last_page of
             Inl e \<Rightarrow> [Uncaught e]
           | Inr pages \<Rightarrow>
               map HttpGet pages @
               (case fetch_all_submissions (listing env) (fetch_completed env) last_page of
                  Inl e \<Rightarrow> [Uncaught e]
                | Inr all_submissions \<Rightarrow>
                    Log INFO ''Total submissions collected'' #
                    (case prepare (py_str env) all_submissions
                            \<lparr>submissions_data = [], submission_urls = [], prep_log = []\<rparr> of
                       (st, Some e) \<Rightarrow> prep_log st @ [Uncaught e]
                     | (st, None) \<Rightarrow>
                         prep_log st @
                         Log INFO ''Total submissions prepared for votes extraction'' #
                         Log INFO ''Starting to fetch votes using threading...'' #
                         map DetailTask (submissions_data st) @
                         Log INFO ''All votes have been fetched.'' #
                         Log INFO ''Saving submission data'' #
                         write_csv (py_str env)
                           (extract_all_votes
                              (\<lambda>i. extract_votes (unicode_decimal env) (browser env i))
                              (detail_completed env) (submissions_data st)) @
                         [Log INFO ''Saving submission URLs'',
                          TextWritten ''submission_urls.txt'' (submission_urls st),
                          Log INFO ''Submission URLs have been saved'',
                          Log INFO ''Scraping completed successfully!'']))))"

subsection \<open>harv_titles_votes.py\<close>

text \<open>
  Step 3 of \<^verbatim>\<open>main\<close>: the filter. \<^verbatim>\<open>submission.get('category', '').strip()\<close> raises
  AttributeError on a category that is not a string, before the hash is looked at.
\<close>

record prep_tv =
  submissions_data_tv :: "pydict list"
  prep_log_tv :: "event list"

fun prepare_tv ::
  "(pystr \<Rightarrow> pystr) \<Rightarrow> pyval list \<Rightarrow> prep_tv \<Rightarrow> prep_tv \<times> exn option" where
  "prepare_tv ulower [] st = (st, None)"
| "prepare_tv ulower (PDict submission # rest) st =
     (case dict_get submission ''category'' (PStr []) of
        PStr c \<Rightarrow>
          (let category = py_strip c
           in if has_hash submission \<and>
                 py_lower ulower category = ustr ''title sequence'' then
                prepare_tv ulower rest
                  \<lparr>submissions_data_tv = submissions_data_tv st @ [submission],
                   prep_log_tv = prep_log_tv st @ [Log INFO ''Added submission'']\<rparr>
              else if \<not> has_hash submission then
                prepare_tv ulower rest
                  (st\<lparr>prep_log_tv :=
                       prep_log_tv st @ [Log WARNING ''Submission without hash found'']\<rparr>)
              else
                prepare_tv ulower rest
                  (st\<lparr>prep_log_tv := prep_log_tv st @ [Log INFO ''Skipping submission'']\<rparr>))
      | _ \<Rightarrow> (st, Some AttributeError))"
| "prepare_tv ulower (submission # rest) st = (st, Some AttributeError)"

text \<open>The category test of the filter: \<^verbatim>\<open>category.lower() == "title sequence"\<close> on the
  stripped category.\<close>

definition title_sequence :: "(pystr \<Rightarrow> pystr) \<Rightarrow> pydict \<Rightarrow> bool" where
  "title_sequence ulower submission \<longleftrightarrow>
     (case dict_get submission ''category'' (PStr []) of
        PStr c \<Rightarrow> py_lower ulower (py_strip c) = ustr ''title sequence''
      | _ \<Rightarrow> False)"

definition keys_tv :: "string list" where
  "keys_tv = [''url'', ''title'', ''votes'', ''name'', ''category'', ''hash'']"

text \<open>
  Step 5: each row is a new dict with the keys of \<^verbatim>\<open>keys\<close> only,
  \<^verbatim>\<open>{key: submission.get(key, '') for key in keys}\<close>, written with \<^verbatim>\<open>writerow\<close>.
\<close>

definition row_tv :: "pydict \<Rightarrow> pydict" where
  "row_tv submission = map (\<lambda>key. (key, dict_get submission key (PStr []))) keys_tv"

definition write_csv_tv :: "(pyval \<Rightarrow> pystr) \<Rightarrow> pydict list \<Rightarrow> event list" where
  "write_csv_tv str_of updated_submissions =
     (case writerows keys_tv (map row_tv updated_submissions) of
        (rows, err) \<Rightarrow>
          [CsvWritten ''titles_votes.csv''
             (map ustr keys_tv # map (map (csv_field str_of)) rows),
           (case err of
              None \<Rightarrow> Log INFO ''Submission data has been saved''
            | Some e \<Rightarrow> Log ERROR ''Error writing to CSV'')])"

definition main_tv :: "session_tv env \<Rightarrow> event list" where
  "main_tv env =
     HttpGet 1 #
     (case discover_last_page ''the first page'' (first_page env) of
        Inl msg \<Rightarrow> [Log ERROR msg]
      | Inr last_page \<Rightarrow>
          Log INFO ''Total pages to fetch'' # Log INFO ''Fetching all submissions...'' #
          (case py_range_from_1 last_page of
             Inl e \<Rightarrow> [Uncaught e]
           | Inr pages \<Rightarrow>
               map HttpGet pages @
               (case fetch_all_submissions (listing env) (fetch_completed env) last_page of
                  Inl e \<Rightarrow> [Uncaught e]
                | Inr all_submissions \<Rightarrow>
                    Log INFO ''Total submissions collected'' #
                    (case prepare_tv (unicode_lower env) all_submissions
                            \<lparr>submissions_data_tv = [], prep_log_tv = []\<rparr> of
                       (st, Some e) \<Rightarrow> prep_log_tv st @ [Uncaught e]
                     | (st, None) \<Rightarrow>
                         (let updated_submissions =
                                extract_all_submission_details
                                  (\<lambda>i s. Inr (extract_submission_details
                                                (unicode_decimal env) (py_str env)
                                                (browser env i) s))
                                  (detail_completed env) (submissions_data_tv st)
                          in prep_log_tv st @
                             Log INFO ''Total submissions prepared for title and votes extraction'' #
                             Log INFO ''Starting to extract titles and votes using threading...'' #
                             map DetailTask (submissions_data_tv st) @
                             Log INFO ''All titles and votes have been extracted.'' #
                             Log INFO ''Saving submission data'' #
                             write_csv_tv (py_str env) updated_submissions @
                             [Log INFO ''Saving submission URLs'',
                              TextWritten ''submission_urls.txt''
                                (map (\<lambda>s. py_format (py_str env)
                                             (dict_get s ''url'' (PStr (ustr ''No URL''))))
                                   updated_submissions),
                              Log INFO ''Submission URLs have been saved'',
                              Log INFO ''Scraping completed successfully!''])))))"

section \<open>The vote-extraction rule: first digit run of the first matching text\<close>

lemma ustr_eq_iff [simp]: "ustr s = ustr t \<longleftrightarrow> s = t"
  by (simp add: ustr_def inj_def)

lemma ustr_Nil_iff [simp]: "ustr s = [] \<longleftrightarrow> s = []"
  by (simp add: ustr_def)

lemma re_search_digits_None:
  "(\<forall>c \<in> set t. \<not> is_digit decimal c) \<Longrightarrow> re_search_digits decimal t = None"
  by (induction t) auto

lemma takeWhile_run:
  assumes "\<forall>c \<in> set run. is_digit decimal c" "post = [] \<or> \<not> is_digit decimal (hd post)"
  shows "takeWhile (is_digit decimal) (run @ post) = run"
  using assms by (cases post) auto

lemma re_search_digits_run:
  assumes "\<forall>c \<in> set pre. \<not> is_digit decimal c" "run \<noteq> []"
    "\<forall>c \<in> set run. is_digit decimal c" "post = [] \<or> \<not> is_digit decimal (hd post)"
  shows "re_search_digits decimal (pre @ run @ post) = Some run"
  using assms(1)
proof (induction pre)
  case Nil
  obtain r rs where run: "run = r # rs" using assms(2) by (cases run) auto
  have "takeWhile (is_digit decimal) (run @ post) = run"
    using takeWhile_run[OF assms(3,4)] .
  then show ?case using assms(3) run by simp
next
  case (Cons a pre)
  then show ?case by simp
qed

text \<open>The value \<^verbatim>\<open>int()\<close> builds is the decimal value: digit \<open>i\<close> of \<open>n\<close> weighs
  \<open>10 ^ (n - 1 - i)\<close>.\<close>

lemma foldl_decimal:
  "foldl (\<lambda>acc c. 10 * acc + digit_val decimal c) 0 ds =
   (\<Sum>i<length ds. digit_val decimal (ds ! i) * 10 ^ (length ds - Suc i))"
proof (induction ds rule: rev_induct)
  case Nil
  then show ?case by simp
next
  case (snoc d ds)
  have "(\<Sum>i<length ds. digit_val decimal ((ds @ [d]) ! i) * 10 ^ (length (ds @ [d]) - Suc i))
      = (\<Sum>i<length ds. 10 * (digit_val decimal (ds ! i) * 10 ^ (length ds - Suc i)))"
  proof (rule sum.cong)
    fix i assume "i \<in> {..<length ds}"
    then have i: "i < length ds" by simp
    then have "length (ds @ [d]) - Suc i = Suc (length ds - Suc i)" by simp
    then show "digit_val decimal ((ds @ [d]) ! i) * 10 ^ (length (ds @ [d]) - Suc i)
        = 10 * (digit_val decimal (ds ! i) * 10 ^ (length ds - Suc i))"
      using i by (simp add: nth_append)
  qed simp
  then show ?case
    using snoc by (simp add: sum_distrib_left)
qed

lemma py_int_decimal:
  "length ds \<le> 4300 \<Longrightarrow>
   py_int decimal ds =
     Inr (\<Sum>i<length ds. digit_val decimal (ds ! i) * 10 ^ (length ds - Suc i))"
  by (simp add: py_int_def int_max_str_digits_def foldl_decimal)

lemma py_int_limit: "4300 < length ds \<Longrightarrow> py_int decimal ds = Inl ValueError"
  by (simp add: py_int_def int_max_str_digits_def)

lemma votes_loop_skip:
  "(\<forall>t \<in> set before. re_search_digits decimal t = None) \<Longrightarrow>
   votes_loop decimal (before @ rest) = votes_loop decimal rest"
  by (induction before) auto

lemma votes_loop_None:
  "(\<forall>t \<in> set texts. \<forall>c \<in> set t. \<not> is_digit decimal c) \<Longrightarrow>
   votes_loop decimal texts = Inr None"
  by (induction texts) (auto simp: re_search_digits_None)

lemma votes_loop_first_run:
  assumes "\<forall>t \<in> set before. \<forall>c \<in> set t. \<not> is_digit decimal c"
    "\<forall>c \<in> set pre. \<not> is_digit decimal c" "run \<noteq> []"
    "\<forall>c \<in> set run. is_digit decimal c" "post = [] \<or> \<not> is_digit decimal (hd post)"
  shows "votes_loop decimal (before @ (pre @ run @ post) # rest) =
    (case py_int decimal run of Inl e \<Rightarrow> Inl e | Inr n \<Rightarrow> Inr (Some n))"
proof -
  have "\<forall>t \<in> set before. re_search_digits decimal t = None"
    using assms(1) by (simp add: re_search_digits_None)
  then have "votes_loop decimal (before @ (pre @ run @ post) # rest) =
      votes_loop decimal ((pre @ run @ post) # rest)"
    by (rule votes_loop_skip)
  moreover have "re_search_digits decimal (pre @ run @ post) = Some run"
    using assms(2-5) by (rule re_search_digits_run)
  ultimately show ?thesis by simp
qed

lemma ascii_digit: "c < 128 \<Longrightarrow> is_digit decimal c \<longleftrightarrow> 48 \<le> c \<and> c \<le> 57"
  by (simp add: is_digit_def digit_of_def)

lemma ascii_digit_val: "48 \<le> c \<Longrightarrow> c \<le> 57 \<Longrightarrow> digit_val decimal c = int c - 48"
  by (simp add: digit_val_def digit_of_def)

text \<open>
  C1, as the code has it. The loop over the marker texts, in document order. When no
  text holds a decimal digit (the empty list too), \<^verbatim>\<open>votes\<close> stays \<open>None\<close>.
  Otherwise let the texts be \<open>before @ t # rest\<close>, where no text of \<open>before\<close> holds
  a digit and \<open>t\<close> is \<open>pre @ run @ post\<close> with \<open>run\<close> its first maximal run of
  digits (no digit in \<open>pre\<close>, \<open>run\<close> not empty and all digits, \<open>post\<close> empty or
  starting with a character that is not a digit). Whatever \<open>rest\<close> is, so that the
  texts after \<open>t\<close> are not looked at: when \<open>run\<close> has at most 4300 digits, \<^verbatim>\<open>votes\<close>
  is its decimal value; when it has more, \<^verbatim>\<open>int()\<close> raises ValueError, which both
  scripts catch with \<^verbatim>\<open>votes\<close> left \<open>None\<close>. The four examples of the specification
  follow. Digits are the decimal digits of Unicode, for any table \<open>decimal\<close> of those
  from code point 128 on.
\<close>

theorem votes_loop_first_digit_run:
  "((\<forall>t \<in> set texts. \<forall>c \<in> set t. \<not> is_digit decimal c) \<longrightarrow>
      votes_loop decimal texts = Inr None) \<and>
   ((\<forall>t \<in> set before. \<forall>c \<in> set t. \<not> is_digit decimal c) \<and>
    (\<forall>c \<in> set pre. \<not> is_digit decimal c) \<and>
    run \<noteq> [] \<and> (\<forall>c \<in> set run. is_digit decimal c) \<and>
    (post = [] \<or> \<not> is_digit decimal (hd post)) \<longrightarrow>
      (length run \<le> 4300 \<longrightarrow>
         votes_loop decimal (before @ (pre @ run @ post) # rest) =
           Inr (Some (\<Sum>i<length run. digit_val decimal (run ! i) * 10 ^ (length run - Suc i)))) \<and>
      (4300 < length run \<longrightarrow>
         votes_loop decimal (before @ (pre @ run @ post) # rest) = Inl ValueError \<and>
         votes_after_try (votes_loop decimal (before @ (pre @ run @ post) # rest)) = None)) \<and>
   votes_after_try (Inr votes) = votes \<and>
   votes_loop decimal [ustr ''120 votes''] = Inr (Some 120) \<and>
   votes_loop decimal [ustr ''Vote #3 of 120''] = Inr (Some 3) \<and>
   votes_loop decimal [ustr ''no data''] = Inr None \<and>
   votes_loop decimal [] = Inr None"
proof (intro conjI impI)
  assume "\<forall>t \<in> set texts. \<forall>c \<in> set t. \<not> is_digit decimal c"
  then show "votes_loop decimal texts = Inr None" by (rule votes_loop_None)
next
  assume a: "(\<forall>t \<in> set before. \<forall>c \<in> set t. \<not> is_digit decimal c) \<and>
    (\<forall>c \<in> set pre. \<not> is_digit decimal c) \<and>
    run \<noteq> [] \<and> (\<forall>c \<in> set run. is_digit decimal c) \<and>
    (post = [] \<or> \<not> is_digit decimal (hd post))"
  assume "length run \<le> 4300"
  then show "votes_loop decimal (before @ (pre @ run @ post) # rest) =
      Inr (Some (\<Sum>i<length run. digit_val decimal (run ! i) * 10 ^ (length run - Suc i)))"
    using a by (simp add: votes_loop_first_run py_int_decimal)
next
  assume a: "(\<forall>t \<in> set before. \<forall>c \<in> set t. \<not> is_digit decimal c) \<and>
    (\<forall>c \<in> set pre. \<not> is_digit decimal c) \<and>
    run \<noteq> [] \<and> (\<forall>c \<in> set run. is_digit decimal c) \<and>
    (post = [] \<or> \<not> is_digit decimal (hd post))"
  assume "4300 < length run"
  then show l: "votes_loop decimal (before @ (pre @ run @ post) # rest) = Inl ValueError"
    using a by (simp add: votes_loop_first_run py_int_limit)
  show "votes_after_try (votes_loop decimal (before @ (pre @ run @ post) # rest)) = None"
    by (simp add: l votes_after_try_def)
next
  show "votes_after_try (Inr votes) = votes" by (simp add: votes_after_try_def)
  show "votes_loop decimal [ustr ''120 votes''] = Inr (Some 120)"
    by (simp add: ustr_def ascii_digit ascii_digit_val py_int_def int_max_str_digits_def)
  show "votes_loop decimal [ustr ''Vote #3 of 120''] = Inr (Some 3)"
    by (simp add: ustr_def ascii_digit ascii_digit_val py_int_def int_max_str_digits_def)
  show "votes_loop decimal [ustr ''no data''] = Inr None"
    by (simp add: ustr_def ascii_digit)
  show "votes_loop decimal [] = Inr None" by simp
qed


theorem votes_loop_first_digit_run_witness:
  "votes_loop (\<lambda>c. None) [ustr ''no data'', ustr ''n/a''] = Inr None \<and>
   votes_loop (\<lambda>c. None)
     ([ustr ''no data''] @ (ustr ''Vote #'' @ ustr ''37'' @ ustr '' of 120'') # [ustr ''9 votes'']) =
     Inr (Some 37) \<and>
   votes_loop (\<lambda>c. if 1632 \<le> c \<and> c \<le> 1641 then Some (c - 1632) else None)
     ([] @ ([160] @ [1633, 1634] @ ustr '' votes'') # [ustr ''9 votes'']) = Inr (Some 12) \<and>
   votes_loop (\<lambda>c. None)
     ([ustr ''n/a''] @ (ustr ''#'' @ replicate 4301 48 @ ustr '' votes'') # [ustr ''9 votes'']) =
     Inl ValueError"
proof -
  let ?ar = "\<lambda>c::nat. if 1632 \<le> c \<and> c \<le> 1641 then Some (c - 1632) else None"
  have 1: "votes_loop (\<lambda>c. None) [ustr ''no data'', ustr ''n/a''] = Inr None"
    using votes_loop_first_digit_run[of "[ustr ''no data'', ustr ''n/a'']" "\<lambda>c. None",
        THEN conjunct1]
    by (simp add: ustr_def ascii_digit)
  have 2: "votes_loop (\<lambda>c. None)
     ([ustr ''no data''] @ (ustr ''Vote #'' @ ustr ''37'' @ ustr '' of 120'') # [ustr ''9 votes'']) =
     Inr (Some 37)"
    using votes_loop_first_digit_run[of _ "\<lambda>c. None" "[ustr ''no data'']" "ustr ''Vote #''"
        "ustr ''37''" "ustr '' of 120''" "[ustr ''9 votes'']",
        THEN conjunct2, THEN conjunct1]
    by (simp add: ustr_def ascii_digit ascii_digit_val lessThan_Suc)
  have 3: "votes_loop ?ar ([] @ ([160] @ [1633, 1634] @ ustr '' votes'') # [ustr ''9 votes'']) =
      Inr (Some 12)"
    using votes_loop_first_digit_run[of _ ?ar "[]" "[160]" "[1633, 1634]" "ustr '' votes''"
        "[ustr ''9 votes'']", THEN conjunct2, THEN conjunct1]
    by (simp add: ustr_def is_digit_def digit_val_def digit_of_def lessThan_Suc)
  have 4: "votes_loop (\<lambda>c. None)
     ([ustr ''n/a''] @ (ustr ''#'' @ replicate 4301 48 @ ustr '' votes'') # [ustr ''9 votes'']) =
     Inl ValueError"
    using votes_loop_first_digit_run[of _ "\<lambda>c. None" "[ustr ''n/a'']" "ustr ''#''"
        "replicate 4301 48" "ustr '' votes''" "[ustr ''9 votes'']",
        THEN conjunct2, THEN conjunct1]
    by (simp add: ustr_def ascii_digit)
  from 1 2 3 4 show ?thesis by simp
qed

lemma py_strip_self:
  assumes "s \<noteq> []" "\<not> is_space (hd s)" "\<not> is_space (last s)"
  shows "py_strip s = s"
proof -
  have 1: "dropWhile is_space s = s"
    using assms(1,2) by (cases s) auto
  have "rev s \<noteq> []" "\<not> is_space (hd (rev s))"
    using assms(1,3) by (simp_all add: hd_rev)
  then have 2: "dropWhile is_space (rev s) = rev s"
    by (cases "rev s") auto
  show ?thesis by (simp add: py_strip_def 1 2)
qed

lemma zeros_run:
  "re_search_digits decimal (replicate (Suc n) 48) = Some (replicate (Suc n) 48)"
  using re_search_digits_run[of "[]" decimal "replicate (Suc n) 48" "[]"]
  by (simp add: ascii_digit)

text \<open>
  C1 as stated fails: a text whose first digit run is 4301 zeros has the integer value 0,
  but \<^verbatim>\<open>int()\<close> raises on it, both scripts catch the exception, and \<^verbatim>\<open>votes\<close> is
  \<open>None\<close>.
\<close>

theorem long_digit_run_counterexample:
  "re_search_digits (\<lambda>c. None) (replicate 4301 48) = Some (replicate 4301 48) \<and>
   (\<Sum>i<4301. digit_val (\<lambda>c. None) (replicate 4301 48 ! i) * 10 ^ (4301 - Suc i)) = 0 \<and>
   votes_loop (\<lambda>c. None) [replicate 4301 48] = Inl ValueError \<and>
   extract_votes (\<lambda>c. None) (Script (Returns [replicate 4301 48])) [] =
     Inr [(''votes'', PNone)] \<and>
   dict_get (extract_submission_details (\<lambda>c. None) (\<lambda>v. [])
      (Rendered (Returns []) (Returns [replicate 4301 48])) []) ''votes'' (PStr []) = PNone"
proof -
  have n: "(4301::nat) = Suc 4300" by simp
  have 1: "re_search_digits (\<lambda>c. None) (replicate 4301 48) = Some (replicate 4301 48)"
    unfolding n by (rule zeros_run)
  have 2: "(\<Sum>i<4301. digit_val (\<lambda>c. None) (replicate 4301 48 ! i) * 10 ^ (4301 - Suc i)) = 0"
    by (rule sum.neutral) (simp add: ascii_digit_val)
  have 3: "votes_loop (\<lambda>c. None) [replicate 4301 48] = Inl ValueError"
    by (simp add: 1 py_int_limit)
  have s: "py_strip (replicate 4301 48) = replicate 4301 48"
    unfolding n by (rule py_strip_self) (simp_all add: is_space_def)
  have 4: "extract_votes (\<lambda>c. None) (Script (Returns [replicate 4301 48])) [] =
     Inr [(''votes'', PNone)]"
    by (simp add: extract_votes_def 3 votes_after_try_def votes_value_def dict_set_def
        del: votes_loop.simps)
  have 5: "dict_get (extract_submission_details (\<lambda>c. None) (\<lambda>v. [])
      (Rendered (Returns []) (Returns [replicate 4301 48])) []) ''votes'' (PStr []) = PNone"
    by (simp add: extract_submission_details_def votes_of_attempt_def s 3 votes_after_try_def
        votes_value_def dict_set_def dict_get_def Let_def del: votes_loop.simps)
  from 1 2 3 4 5 show ?thesis by simp
qed

section \<open>Dictionaries\<close>

lemma dict_get_dict_set:
  "dict_get (dict_set d k v) k' dflt = (if k' = k then v else dict_get d k' dflt)"
  by (simp add: dict_get_def dict_set_def update_conv')

lemma map_of_dict_set: "map_of (dict_set d k v) = (map_of d)(k \<mapsto> v)"
  by (simp add: dict_set_def update_conv')

lemma dict_set_idem: "map_of d k = Some v \<Longrightarrow> dict_set d k v = d"
  by (simp add: dict_set_def update_triv)

section \<open>Detail extraction: the same page gives the same fields\<close>

lemma extract_submission_details_again:
  "extract_submission_details decimal str_of b (extract_submission_details decimal str_of b s) =
   extract_submission_details decimal str_of b s"
  by (cases b)
    (simp_all add: extract_submission_details_def Let_def dict_get_dict_set
       dict_set_idem map_of_dict_set)

lemma extract_submission_details_title:
  "dict_get (extract_submission_details decimal str_of b s) ''title'' d =
     (case b of Rendered t v \<Rightarrow> title_of_attempt t | _ \<Rightarrow> PNone)"
  by (cases b) (simp_all add: extract_submission_details_def Let_def dict_get_dict_set)

lemma extract_submission_details_votes:
  "dict_get (extract_submission_details decimal str_of b s) ''votes'' d =
     (case b of Rendered t v \<Rightarrow> votes_of_attempt decimal v | _ \<Rightarrow> PNone)"
  by (cases b) (simp_all add: extract_submission_details_def Let_def dict_get_dict_set)

lemma extract_votes_again:
  "extract_votes decimal c s = Inr s1 \<Longrightarrow> extract_votes decimal c s1 = Inr s1"
  by (auto simp: extract_votes_def dict_set_idem map_of_dict_set
      split: session.splits attempt.splits)

lemma extract_votes_returns:
  "c \<noteq> OptionsRaises \<Longrightarrow>
   extract_votes decimal c s =
     Inr (dict_set s ''votes''
            (case c of
               Script (Returns votes_texts) \<Rightarrow>
                 votes_value (votes_after_try (votes_loop decimal votes_texts))
             | _ \<Rightarrow> PNone))"
  by (auto simp: extract_votes_def split: session.splits attempt.splits)

text \<open>
  C9. For a fixed session outcome (for a rendered page: a fixed title-marker text and a
  fixed list of vote-marker texts), extraction gives the same \<^verbatim>\<open>title\<close> and
  \<^verbatim>\<open>votes\<close> whatever record it starts from, and running it again on its own output
  changes nothing. For harv_titles_votes.py: the fields of the result depend on the
  session only, a rendered page gives the stripped title (or \<open>PNone\<close> when it is empty)
  and the votes that the loop and its \<^verbatim>\<open>try\<close> leave for the stripped texts, and the
  second run returns its argument. For harv.py, whenever the options can be built,
  \<^verbatim>\<open>extract_votes\<close> returns, a second run on the result returns the same record, the
  votes depend on the session only, and the title is the one of the input.
\<close>

theorem extraction_idempotent:
  "extract_submission_details decimal str_of b (extract_submission_details decimal str_of b s) =
     extract_submission_details decimal str_of b s \<and>
   dict_get (extract_submission_details decimal str_of b s) ''title'' d =
     dict_get (extract_submission_details decimal str_of b s') ''title'' d \<and>
   dict_get (extract_submission_details decimal str_of b s) ''votes'' d =
     dict_get (extract_submission_details decimal str_of b s') ''votes'' d \<and>
   dict_get (extract_submission_details decimal str_of
      (Rendered (Returns title_text) (Returns votes_texts)) s) ''title'' d =
     (if py_strip title_text = [] then PNone else PStr (py_strip title_text)) \<and>
   dict_get (extract_submission_details decimal str_of
      (Rendered (Returns title_text) (Returns votes_texts)) s) ''votes'' d =
     votes_value (votes_after_try (votes_loop decimal (map py_strip votes_texts))) \<and>
   (c \<noteq> OptionsRaises \<longrightarrow>
     (\<exists>s1 s2. extract_votes decimal c s = Inr s1 \<and> extract_votes decimal c s1 = Inr s1 \<and>
        extract_votes decimal c s' = Inr s2 \<and>
        dict_get s2 ''votes'' d = dict_get s1 ''votes'' d \<and>
        dict_get s1 ''title'' d = dict_get s ''title'' d)) \<and>
   extract_votes decimal (Script (Returns votes_texts)) s =
     Inr (dict_set s ''votes'' (votes_value (votes_after_try (votes_loop decimal votes_texts))))"
proof (intro conjI impI)
  show "extract_submission_details decimal str_of b
      (extract_submission_details decimal str_of b s) =
     extract_submission_details decimal str_of b s"
    by (rule extract_submission_details_again)
  show "dict_get (extract_submission_details decimal str_of b s) ''title'' d =
     dict_get (extract_submission_details decimal str_of b s') ''title'' d"
    by (simp add: extract_submission_details_title)
  show "dict_get (extract_submission_details decimal str_of b s) ''votes'' d =
     dict_get (extract_submission_details decimal str_of b s') ''votes'' d"
    by (simp add: extract_submission_details_votes)
  show "dict_get (extract_submission_details decimal str_of
      (Rendered (Returns title_text) (Returns votes_texts)) s) ''title'' d =
     (if py_strip title_text = [] then PNone else PStr (py_strip title_text))"
    by (simp add: extract_submission_details_title title_of_attempt_def Let_def)
  show "dict_get (extract_submission_details decimal str_of
      (Rendered (Returns title_text) (Returns votes_texts)) s) ''votes'' d =
     votes_value (votes_after_try (votes_loop decimal (map py_strip votes_texts)))"
    by (simp add: extract_submission_details_votes votes_of_attempt_def)
  show "extract_votes decimal (Script (Returns votes_texts)) s =
     Inr (dict_set s ''votes'' (votes_value (votes_after_try (votes_loop decimal votes_texts))))"
    by (simp add: extract_votes_def)
next
  assume c: "c \<noteq> OptionsRaises"
  define w where
    "w = (case c of
            Script (Returns votes_texts) \<Rightarrow>
              votes_value (votes_after_try (votes_loop decimal votes_texts))
          | _ \<Rightarrow> PNone)"
  have 1: "extract_votes decimal c s = Inr (dict_set s ''votes'' w)"
    and 2: "extract_votes decimal c s' = Inr (dict_set s' ''votes'' w)"
    unfolding w_def by (rule extract_votes_returns[OF c])+
  have 3: "extract_votes decimal c (dict_set s ''votes'' w) = Inr (dict_set s ''votes'' w)"
    using 1 by (rule extract_votes_again)
  have "dict_get (dict_set s' ''votes'' w) ''votes'' d = dict_get (dict_set s ''votes'' w) ''votes'' d"
    and "dict_get (dict_set s ''votes'' w) ''title'' d = dict_get s ''title'' d"
    by (simp_all add: dict_get_dict_set)
  with 1 2 3 show "\<exists>s1 s2. extract_votes decimal c s = Inr s1 \<and>
        extract_votes decimal c s1 = Inr s1 \<and>
        extract_votes decimal c s' = Inr s2 \<and>
        dict_get s2 ''votes'' d = dict_get s1 ''votes'' d \<and>
        dict_get s1 ''title'' d = dict_get s ''title'' d"
    by blast
qed

theorem extraction_idempotent_witness:
  "Script (Returns [ustr ''120 votes'']) \<noteq> OptionsRaises \<and>
   (\<exists>s1. extract_votes (\<lambda>c. None) (Script (Returns [ustr ''120 votes'']))
            [(''title'', PStr (ustr ''T''))] = Inr s1 \<and>
      extract_votes (\<lambda>c. None) (Script (Returns [ustr ''120 votes''])) s1 = Inr s1 \<and>
      dict_get s1 ''votes'' PNone = PInt 120 \<and>
      dict_get s1 ''title'' PNone = PStr (ustr ''T'')) \<and>
   dict_get (extract_submission_details (\<lambda>c. None) (\<lambda>v. [])
      (Rendered (Returns ([160, 32] @ ustr ''My title'' @ [12288, 10]))
         (Returns [ustr '' n/a '', [160] @ ustr ''7 votes''])) []) ''title'' PNone =
     PStr (ustr ''My title'') \<and>
   dict_get (extract_submission_details (\<lambda>c. None) (\<lambda>v. [])
      (Rendered (Returns ([160, 32] @ ustr ''My title'' @ [12288, 10]))
         (Returns [ustr '' n/a '', [160] @ ustr ''7 votes''])) []) ''votes'' PNone = PInt 7"
proof -
  have h: "Script (Returns [ustr ''120 votes'']) \<noteq> OptionsRaises" by simp
  have v: "extract_votes (\<lambda>c. None) (Script (Returns [ustr ''120 votes'']))
      [(''title'', PStr (ustr ''T''))] =
      Inr [(''title'', PStr (ustr ''T'')), (''votes'', PInt 120)]"
    by (simp add: extract_votes_def dict_set_def votes_value_def votes_after_try_def ustr_def
        ascii_digit ascii_digit_val py_int_def int_max_str_digits_def)
  note t = extraction_idempotent[where decimal = "\<lambda>c. None" and str_of = "\<lambda>v. []"
      and c = "Script (Returns [ustr ''120 votes''])"
      and s = "[(''title'', PStr (ustr ''T''))]" and s' = "[]" and d = PNone
      and b = InitRaises_tv]
  from t[THEN conjunct2, THEN conjunct2, THEN conjunct2, THEN conjunct2, THEN conjunct2,
      THEN conjunct1, rule_format, OF h]
  obtain s1 where "extract_votes (\<lambda>c. None) (Script (Returns [ustr ''120 votes'']))
      [(''title'', PStr (ustr ''T''))] = Inr s1"
    and "extract_votes (\<lambda>c. None) (Script (Returns [ustr ''120 votes''])) s1 = Inr s1"
    by blast
  with v h have 1: "\<exists>s1. extract_votes (\<lambda>c. None) (Script (Returns [ustr ''120 votes'']))
            [(''title'', PStr (ustr ''T''))] = Inr s1 \<and>
      extract_votes (\<lambda>c. None) (Script (Returns [ustr ''120 votes''])) s1 = Inr s1 \<and>
      dict_get s1 ''votes'' PNone = PInt 120 \<and>
      dict_get s1 ''title'' PNone = PStr (ustr ''T'')"
    by (auto simp: dict_get_def)
  note u = extraction_idempotent[where decimal = "\<lambda>c. None" and str_of = "\<lambda>v. []"
      and s = "[]" and d = PNone
      and title_text = "[160, 32] @ ustr ''My title'' @ [12288, 10]"
      and votes_texts = "[ustr '' n/a '', [160] @ ustr ''7 votes'']"]
  have 2: "dict_get (extract_submission_details (\<lambda>c. None) (\<lambda>v. [])
      (Rendered (Returns ([160, 32] @ ustr ''My title'' @ [12288, 10]))
         (Returns [ustr '' n/a '', [160] @ ustr ''7 votes''])) []) ''title'' PNone =
     PStr (ustr ''My title'')"
    using u[THEN conjunct2, THEN conjunct2, THEN conjunct2, THEN conjunct1]
    by (simp add: py_strip_def is_space_def ustr_def)
  have 3: "dict_get (extract_submission_details (\<lambda>c. None) (\<lambda>v. [])
      (Rendered (Returns ([160, 32] @ ustr ''My title'' @ [12288, 10]))
         (Returns [ustr '' n/a '', [160] @ ustr ''7 votes''])) []) ''votes'' PNone = PInt 7"
    using u[THEN conjunct2, THEN conjunct2, THEN conjunct2, THEN conjunct2, THEN conjunct1]
    by (simp add: py_strip_def is_space_def ustr_def votes_value_def votes_after_try_def
        ascii_digit ascii_digit_val py_int_def int_max_str_digits_def)
  from h 1 2 3 show ?thesis by blast
qed

section \<open>The detail harvesters keep every record\<close>

lemma mset_map_completed:
  "mset completed = mset [0..<n] \<Longrightarrow> mset (map f completed) = mset (map f [0..<n])"
  by (metis mset_map)

lemma completed_index:
  "mset completed = mset [0..<n] \<Longrightarrow> i < n \<Longrightarrow> i \<in> set completed"
  using mset_eq_setD[of completed "[0..<n]"] by simp

text \<open>
  C2, as the code has it. Let \<open>completed\<close> be a permutation of the indices of the
  input. Both harvesters return one entry per input record: the output has the length
  of the input and is, as a multiset, the per-record results. A record whose task
  raised is in the output: for \<^verbatim>\<open>extract_all_submission_details\<close> with \<^verbatim>\<open>title\<close>
  and \<^verbatim>\<open>votes\<close> set to \<open>PNone\<close>, for \<^verbatim>\<open>extract_all_votes\<close> with \<^verbatim>\<open>votes\<close> set to
  \<open>PNone\<close> and every other field, the title too, as it was.
\<close>

theorem harvesters_keep_every_record:
  assumes "mset completed = mset [0..<length submissions]"
  shows
    "length (extract_all_votes task completed submissions) = length submissions \<and>
     length (extract_all_submission_details task completed submissions) = length submissions \<and>
     mset (extract_all_votes task completed submissions) =
       mset (map (\<lambda>i. case task i (submissions ! i) of
                        Inr updated_submission \<Rightarrow> updated_submission
                      | Inl e \<Rightarrow> dict_set (submissions ! i) ''votes'' PNone)
              [0..<length submissions]) \<and>
     mset (extract_all_submission_details task completed submissions) =
       mset (map (\<lambda>i. case task i (submissions ! i) of
                        Inr updated_submission \<Rightarrow> updated_submission
                      | Inl e \<Rightarrow>
                          dict_set (dict_set (submissions ! i) ''title'' PNone) ''votes'' PNone)
              [0..<length submissions]) \<and>
     (\<forall>i<length submissions. \<forall>e. task i (submissions ! i) = Inl e \<longrightarrow>
        (\<exists>r \<in> set (extract_all_votes task completed submissions).
           r = dict_set (submissions ! i) ''votes'' PNone \<and>
           dict_get r ''votes'' d = PNone \<and>
           (\<forall>k. k \<noteq> ''votes'' \<longrightarrow> dict_get r k d = dict_get (submissions ! i) k d)) \<and>
        (\<exists>r \<in> set (extract_all_submission_details task completed submissions).
           r = dict_set (dict_set (submissions ! i) ''title'' PNone) ''votes'' PNone \<and>
           dict_get r ''votes'' d = PNone \<and> dict_get r ''title'' d = PNone \<and>
           (\<forall>k. k \<noteq> ''votes'' \<and> k \<noteq> ''title'' \<longrightarrow>
              dict_get r k d = dict_get (submissions ! i) k d)))"
proof -
  have len: "length completed = length submissions"
    using assms by (metis length_upt minus_nat.diff_0 size_mset)
  have 1: "length (extract_all_votes task completed submissions) = length submissions"
    and 2: "length (extract_all_submission_details task completed submissions) = length submissions"
    using len by (simp_all add: extract_all_votes_def extract_all_submission_details_def)
  have 3: "mset (extract_all_votes task completed submissions) =
       mset (map (\<lambda>i. case task i (submissions ! i) of
                        Inr updated_submission \<Rightarrow> updated_submission
                      | Inl e \<Rightarrow> dict_set (submissions ! i) ''votes'' PNone)
              [0..<length submissions])"
    unfolding extract_all_votes_def using assms by (rule mset_map_completed)
  have 4: "mset (extract_all_submission_details task completed submissions) =
       mset (map (\<lambda>i. case task i (submissions ! i) of
                        Inr updated_submission \<Rightarrow> updated_submission
                      | Inl e \<Rightarrow>
                          dict_set (dict_set (submissions ! i) ''title'' PNone) ''votes'' PNone)
              [0..<length submissions])"
    unfolding extract_all_submission_details_def using assms by (rule mset_map_completed)
  have 5: "\<forall>i<length submissions. \<forall>e. task i (submissions ! i) = Inl e \<longrightarrow>
        (\<exists>r \<in> set (extract_all_votes task completed submissions).
           r = dict_set (submissions ! i) ''votes'' PNone \<and>
           dict_get r ''votes'' d = PNone \<and>
           (\<forall>k. k \<noteq> ''votes'' \<longrightarrow> dict_get r k d = dict_get (submissions ! i) k d)) \<and>
        (\<exists>r \<in> set (extract_all_submission_details task completed submissions).
           r = dict_set (dict_set (submissions ! i) ''title'' PNone) ''votes'' PNone \<and>
           dict_get r ''votes'' d = PNone \<and> dict_get r ''title'' d = PNone \<and>
           (\<forall>k. k \<noteq> ''votes'' \<and> k \<noteq> ''title'' \<longrightarrow>
              dict_get r k d = dict_get (submissions ! i) k d))"
  proof (intro allI impI)
    fix i e
    assume i: "i < length submissions" and raised: "task i (submissions ! i) = Inl e"
    have mem: "i \<in> set completed" using assms i by (rule completed_index)
    have a: "dict_set (submissions ! i) ''votes'' PNone
        \<in> set (extract_all_votes task completed submissions)"
      unfolding extract_all_votes_def set_map
      by (rule image_eqI[where x = i]) (simp_all add: raised mem)
    have b: "dict_set (dict_set (submissions ! i) ''title'' PNone) ''votes'' PNone
        \<in> set (extract_all_submission_details task completed submissions)"
      unfolding extract_all_submission_details_def set_map
      by (rule image_eqI[where x = i]) (simp_all add: raised mem)
    show "(\<exists>r \<in> set (extract_all_votes task completed submissions).
           r = dict_set (submissions ! i) ''votes'' PNone \<and>
           dict_get r ''votes'' d = PNone \<and>
           (\<forall>k. k \<noteq> ''votes'' \<longrightarrow> dict_get r k d = dict_get (submissions ! i) k d)) \<and>
        (\<exists>r \<in> set (extract_all_submission_details task completed submissions).
           r = dict_set (dict_set (submissions ! i) ''title'' PNone) ''votes'' PNone \<and>
           dict_get r ''votes'' d = PNone \<and> dict_get r ''title'' d = PNone \<and>
           (\<forall>k. k \<noteq> ''votes'' \<and> k \<noteq> ''title'' \<longrightarrow>
              dict_get r k d = dict_get (submissions ! i) k d))"
      using a b by (simp add: dict_get_dict_set)
  qed
  from 1 2 3 4 5 show ?thesis by blast
qed

theorem harvesters_keep_every_record_witness:
  "mset [1, 0] = mset [0..<length [[(''title'', PStr (ustr ''A''))], [(''title'', PStr (ustr ''B''))]]] \<and>
   extract_all_votes (\<lambda>i s. if i = 0 then Inl WebDriverException else Inr s) [1, 0]
       [[(''title'', PStr (ustr ''A''))], [(''title'', PStr (ustr ''B''))]] =
     [[(''title'', PStr (ustr ''B''))], [(''title'', PStr (ustr ''A'')), (''votes'', PNone)]] \<and>
   length (extract_all_votes (\<lambda>i s. if i = 0 then Inl WebDriverException else Inr s) [1, 0]
       [[(''title'', PStr (ustr ''A''))], [(''title'', PStr (ustr ''B''))]]) = 2 \<and>
   length (extract_all_submission_details
       (\<lambda>i s. if i = 0 then Inl WebDriverException else Inr s) [1, 0]
       [[(''title'', PStr (ustr ''A''))], [(''title'', PStr (ustr ''B''))]]) = 2"
proof -
  have h: "mset [1, 0] = mset [0..<length [[(''title'', PStr (ustr ''A''))], [(''title'', PStr (ustr ''B''))]]]"
    by (simp add: upt_conv_Cons)
  have e: "extract_all_votes (\<lambda>i s. if i = 0 then Inl WebDriverException else Inr s) [1, 0]
       [[(''title'', PStr (ustr ''A''))], [(''title'', PStr (ustr ''B''))]] =
     [[(''title'', PStr (ustr ''B''))], [(''title'', PStr (ustr ''A'')), (''votes'', PNone)]]"
    by (simp add: extract_all_votes_def dict_set_def)
  show ?thesis
    using h e harvesters_keep_every_record[OF h,
        of "\<lambda>i s. if i = 0 then Inl WebDriverException else Inr s" PNone]
    by simp
qed

text \<open>
  C2 as stated fails for harv.py: when the task of a record raises (here the Chrome
  options cannot be built), \<^verbatim>\<open>extract_all_votes\<close> sets \<^verbatim>\<open>votes\<close> to \<open>PNone\<close> and
  leaves the title of the listing in place.
\<close>

theorem extract_all_votes_title_counterexample:
  "extract_votes (\<lambda>c. None) OptionsRaises
     [(''url'', PStr (ustr ''u'')), (''title'', PStr (ustr ''T'')), (''name'', PStr (ustr ''N'')),
      (''category'', PStr (ustr ''C'')), (''hash'', PStr (ustr ''h''))] = Inl WebDriverException \<and>
   extract_all_votes (\<lambda>i. extract_votes (\<lambda>c. None) OptionsRaises) [0]
     [[(''url'', PStr (ustr ''u'')), (''title'', PStr (ustr ''T'')), (''name'', PStr (ustr ''N'')),
       (''category'', PStr (ustr ''C'')), (''hash'', PStr (ustr ''h''))]] =
     [[(''url'', PStr (ustr ''u'')), (''title'', PStr (ustr ''T'')), (''name'', PStr (ustr ''N'')),
       (''category'', PStr (ustr ''C'')), (''hash'', PStr (ustr ''h'')), (''votes'', PNone)]] \<and>
   dict_get (hd (extract_all_votes (\<lambda>i. extract_votes (\<lambda>c. None) OptionsRaises) [0]
     [[(''url'', PStr (ustr ''u'')), (''title'', PStr (ustr ''T'')), (''name'', PStr (ustr ''N'')),
       (''category'', PStr (ustr ''C'')), (''hash'', PStr (ustr ''h''))]])) ''title'' PNone \<noteq> PNone"
  by (simp add: extract_all_votes_def extract_votes_def dict_set_def dict_get_def)

section \<open>The page fetcher: a failing page adds nothing\<close>

lemma fetch_page_returns: "\<exists>submissions. fetch_page api p = Inr submissions"
  by (simp add: fetch_page_def split: sum.splits)

lemma fetch_page_failure:
  assumes "api p = RequestRaises \<or> (\<exists>status_code body. api p = Response status_code body \<and>
      status_code \<noteq> 200) \<or> (\<exists>e. fetch_page_try (api p) = Inl e)"
  shows "fetch_page api p = Inr (PList [])"
  using assms by (auto simp: fetch_page_def)

lemma merge_completed_concat:
  "merge_completed results all_submissions =
   all_submissions @ concat (map contribution results)"
  by (induction results arbitrary: all_submissions) auto

lemma contribution_empty: "contribution (Inr (PList [])) = []"
  by (simp add: contribution_def)

lemma contributions_without_page:
  assumes "contribution (fetch_page api p) = []" "\<forall>q. q \<noteq> p \<longrightarrow> api' q = api q"
  shows "concat (map (\<lambda>q. contribution (fetch_page api q)) pages) =
    concat (map (\<lambda>q. contribution (fetch_page api' q)) (filter (\<lambda>q. q \<noteq> p) pages))"
proof (induction pages)
  case Nil
  show ?case by simp
next
  case (Cons q pages)
  show ?case
  proof (cases "q = p")
    case True
    with Cons assms(1) show ?thesis by simp
  next
    case False
    with assms(2) have "fetch_page api' q = fetch_page api q"
      by (simp add: fetch_page_def)
    with Cons False show ?thesis by simp
  qed
qed

text \<open>
  C6. \<^verbatim>\<open>fetch_page\<close> always returns (it never raises). When the request of page
  \<open>p\<close> raises, answers with a status other than 200, or anything else raises inside
  the \<^verbatim>\<open>try\<close> (the body is not JSON, is not an object, its \<^verbatim>\<open>data\<close> has no
  length), it returns the empty list and the page adds nothing to the merged list. The
  merged list is the concatenation, in completion order, of what each page adds, and
  what a page adds depends on the outcome of that page's request only: with \<open>p\<close>
  failing, the merged list is the one of the other pages alone, read from any
  \<open>api'\<close> that agrees with \<open>api\<close> on the other pages.
\<close>

theorem fetch_page_failure_isolated:
  "(\<exists>submissions. fetch_page api p = Inr submissions) \<and>
   merge_completed (map (fetch_page api) pages) acc =
     acc @ concat (map (\<lambda>q. contribution (fetch_page api q)) pages) \<and>
   (api p = RequestRaises \<or>
    (\<exists>status_code body. api p = Response status_code body \<and> status_code \<noteq> 200) \<or>
    (\<exists>e. fetch_page_try (api p) = Inl e) \<longrightarrow>
      fetch_page api p = Inr (PList []) \<and>
      contribution (fetch_page api p) = [] \<and>
      (\<forall>api'. (\<forall>q. q \<noteq> p \<longrightarrow> api' q = api q) \<longrightarrow>
         merge_completed (map (fetch_page api) pages) acc =
         merge_completed (map (fetch_page api') (filter (\<lambda>q. q \<noteq> p) pages)) acc))"
proof (intro conjI impI allI)
  show "\<exists>submissions. fetch_page api p = Inr submissions" by (rule fetch_page_returns)
  show "merge_completed (map (fetch_page api) pages) acc =
     acc @ concat (map (\<lambda>q. contribution (fetch_page api q)) pages)"
    by (simp add: merge_completed_concat comp_def)
next
  assume f: "api p = RequestRaises \<or>
    (\<exists>status_code body. api p = Response status_code body \<and> status_code \<noteq> 200) \<or>
    (\<exists>e. fetch_page_try (api p) = Inl e)"
  then show e: "fetch_page api p = Inr (PList [])" by (rule fetch_page_failure)
  then show c: "contribution (fetch_page api p) = []" by (simp add: contribution_empty)
  fix api'
  assume "\<forall>q. q \<noteq> p \<longrightarrow> api' q = api q"
  with c have "concat (map (\<lambda>q. contribution (fetch_page api q)) pages) =
    concat (map (\<lambda>q. contribution (fetch_page api' q)) (filter (\<lambda>q. q \<noteq> p) pages))"
    by (rule contributions_without_page)
  then show "merge_completed (map (fetch_page api) pages) acc =
         merge_completed (map (fetch_page api') (filter (\<lambda>q. q \<noteq> p) pages)) acc"
    by (simp add: merge_completed_concat comp_def)
qed

theorem fetch_page_failure_isolated_witness:
  "(\<lambda>n. if n = 2 then Response 500 None
         else Response 200 (Some (PDict [(''data'', PList [PInt (int n)])]))) 2 = Response 500 None \<and>
   fetch_page (\<lambda>n. if n = 2 then Response 500 None
         else Response 200 (Some (PDict [(''data'', PList [PInt (int n)])]))) 2 = Inr (PList []) \<and>
   merge_completed (map (fetch_page (\<lambda>n. if n = 2 then Response 500 None
         else Response 200 (Some (PDict [(''data'', PList [PInt (int n)])])))) [3, 2, 1]) [] =
     [PInt 3, PInt 1]"
proof -
  let ?api = "\<lambda>n. if n = 2 then Response 500 None
         else Response 200 (Some (PDict [(''data'', PList [PInt (int n)])]))"
  have h: "?api 2 = RequestRaises \<or>
    (\<exists>status_code body. ?api 2 = Response status_code body \<and> status_code \<noteq> 200) \<or>
    (\<exists>e. fetch_page_try (?api 2) = Inl e)"
    by simp
  have m: "merge_completed (map (fetch_page ?api) (filter (\<lambda>q. q \<noteq> 2) [3, 2, 1])) [] =
      [PInt 3, PInt 1]"
    by (simp add: fetch_page_def contribution_def dict_get_def)
  note t = fetch_page_failure_isolated[of ?api 2 "[3, 2, 1]" "[]", THEN conjunct2,
      THEN conjunct2, rule_format, OF h]
  have 1: "fetch_page ?api 2 = Inr (PList [])"
    using t by (rule conjunct1)
  have 2: "merge_completed (map (fetch_page ?api) [3, 2, 1]) [] =
         merge_completed (map (fetch_page ?api) (filter (\<lambda>q. q \<noteq> 2) [3, 2, 1])) []"
    using t[THEN conjunct2, THEN conjunct2, THEN spec, of ?api] by simp
  from 1 2 m show ?thesis by simp
qed


section \<open>Page 1 decides whether the run goes on\<close>

lemma main_aborts:
  "discover_last_page ''page 1'' (first_page env) = Inl msg \<Longrightarrow>
   main env = [HttpGet 1, Log ERROR msg]"
  by (simp add: main_def)

lemma main_tv_aborts:
  "discover_last_page ''the first page'' (first_page env) = Inl msg \<Longrightarrow>
   main_tv env = [HttpGet 1, Log ERROR msg]"
  by (simp add: main_tv_def)

text \<open>
  C7. When the request of page 1 in \<^verbatim>\<open>main\<close> raises, answers with a status other than
  200, or anything raises inside the \<^verbatim>\<open>try\<close> of step 1 (\<open>discover_last_page\<close> gives
  \<open>Inl\<close>; a body that is not JSON is one case), the whole run of either script is the
  request of page 1 followed by one \<^verbatim>\<open>logging.error\<close>: no page task is submitted
  (the only request is the one of \<^verbatim>\<open>main\<close>), no detail task is submitted and no file
  is written. The failure reaches the operator as that ERROR record; \<^verbatim>\<open>main\<close> itself
  returns without raising.
\<close>

theorem page_1_failure_aborts:
  "(first_page env = RequestRaises \<longrightarrow>
      main env = [HttpGet 1, Log ERROR ''Exception while fetching the first page'']) \<and>
   (\<forall>status_code body. first_page env = Response status_code body \<and> status_code \<noteq> 200 \<longrightarrow>
      main env = [HttpGet 1, Log ERROR ''Failed to retrieve page 1: Status code'']) \<and>
   (first_page env = Response 200 None \<longrightarrow>
      main env = [HttpGet 1, Log ERROR ''Exception while fetching the first page'']) \<and>
   (\<forall>msg. discover_last_page ''page 1'' (first_page env) = Inl msg \<longrightarrow>
      main env = [HttpGet 1, Log ERROR msg] \<and> requests (main env) = [1]) \<and>
   (first_page env_tv = RequestRaises \<longrightarrow>
      main_tv env_tv = [HttpGet 1, Log ERROR ''Exception while fetching the first page'']) \<and>
   (\<forall>status_code body. first_page env_tv = Response status_code body \<and> status_code \<noteq> 200 \<longrightarrow>
      main_tv env_tv =
        [HttpGet 1, Log ERROR ''Failed to retrieve the first page: Status code'']) \<and>
   (first_page env_tv = Response 200 None \<longrightarrow>
      main_tv env_tv = [HttpGet 1, Log ERROR ''Exception while fetching the first page'']) \<and>
   (\<forall>msg. discover_last_page ''the first page'' (first_page env_tv) = Inl msg \<longrightarrow>
      main_tv env_tv = [HttpGet 1, Log ERROR msg] \<and> requests (main_tv env_tv) = [1])"
proof (intro conjI allI impI)
  assume "first_page env = RequestRaises"
  then show "main env = [HttpGet 1, Log ERROR ''Exception while fetching the first page'']"
    by (simp add: main_aborts)
next
  fix status_code body
  assume "first_page env = Response status_code body \<and> status_code \<noteq> 200"
  then show "main env = [HttpGet 1, Log ERROR ''Failed to retrieve page 1: Status code'']"
    by (simp add: main_aborts)
next
  assume "first_page env = Response 200 None"
  then show "main env = [HttpGet 1, Log ERROR ''Exception while fetching the first page'']"
    by (simp add: main_aborts)
next
  fix msg
  assume a: "discover_last_page ''page 1'' (first_page env) = Inl msg"
  then show "main env = [HttpGet 1, Log ERROR msg]" by (rule main_aborts)
  then show "requests (main env) = [1]" by (simp add: requests_def)
next
  assume "first_page env_tv = RequestRaises"
  then show "main_tv env_tv = [HttpGet 1, Log ERROR ''Exception while fetching the first page'']"
    by (simp add: main_tv_aborts)
next
  fix status_code body
  assume "first_page env_tv = Response status_code body \<and> status_code \<noteq> 200"
  then show "main_tv env_tv =
        [HttpGet 1, Log ERROR ''Failed to retrieve the first page: Status code'']"
    by (simp add: main_tv_aborts)
next
  assume "first_page env_tv = Response 200 None"
  then show "main_tv env_tv = [HttpGet 1, Log ERROR ''Exception while fetching the first page'']"
    by (simp add: main_tv_aborts)
next
  fix msg
  assume a: "discover_last_page ''the first page'' (first_page env_tv) = Inl msg"
  then show "main_tv env_tv = [HttpGet 1, Log ERROR msg]" by (rule main_tv_aborts)
  then show "requests (main_tv env_tv) = [1]" by (simp add: requests_def)
qed

theorem page_1_failure_aborts_witness:
  "first_page \<lparr>first_page = Response 503 None, listing = (\<lambda>n. RequestRaises),
      fetch_completed = [], browser = (\<lambda>i. InitRaises), detail_completed = [],
      py_str = (\<lambda>v. []), unicode_decimal = (\<lambda>c. None),
      unicode_lower = (\<lambda>s. s)\<rparr> = Response 503 None \<and>
   main \<lparr>first_page = Response 503 None, listing = (\<lambda>n. RequestRaises),
      fetch_completed = [], browser = (\<lambda>i. InitRaises), detail_completed = [],
      py_str = (\<lambda>v. []), unicode_decimal = (\<lambda>c. None),
      unicode_lower = (\<lambda>s. s)\<rparr> =
     [HttpGet 1, Log ERROR ''Failed to retrieve page 1: Status code''] \<and>
   main_tv \<lparr>first_page = RequestRaises, listing = (\<lambda>n. RequestRaises),
      fetch_completed = [], browser = (\<lambda>i. InitRaises_tv), detail_completed = [],
      py_str = (\<lambda>v. []), unicode_decimal = (\<lambda>c. None),
      unicode_lower = (\<lambda>s. s)\<rparr> =
     [HttpGet 1, Log ERROR ''Exception while fetching the first page'']"
  using page_1_failure_aborts[of
      "\<lparr>first_page = Response 503 None, listing = (\<lambda>n. RequestRaises),
        fetch_completed = [], browser = (\<lambda>i. InitRaises), detail_completed = [],
        py_str = (\<lambda>v. []), unicode_decimal = (\<lambda>c. None),
      unicode_lower = (\<lambda>s. s)\<rparr>"
      "\<lparr>first_page = RequestRaises, listing = (\<lambda>n. RequestRaises),
        fetch_completed = [], browser = (\<lambda>i. InitRaises_tv), detail_completed = [],
        py_str = (\<lambda>v. []), unicode_decimal = (\<lambda>c. None),
      unicode_lower = (\<lambda>s. s)\<rparr>"]
  by simp

section \<open>A first page without \<^verbatim>\<open>meta\<close> or \<^verbatim>\<open>last_page\<close>\<close>

lemma requests_Cons: "requests (ev # run) = requested ev @ requests run"
  by (simp add: requests_def)


lemma requests_Nil: "requests [] = []"
  by (simp add: requests_def)


lemma requests_HttpGet: "requests (map HttpGet pages) = pages"
  by (induction pages) (simp_all add: requests_Cons requests_Nil)
















section \<open>Step 3: records without a hash, the category filter, duplicates\<close>

lemma has_hash_listing_record: "has_hash (listing_record str_of d) = has_hash d"
  by (simp add: has_hash_def listing_record_def dict_get_def)

lemma hash_listing_record:
  "dict_get (listing_record str_of d) ''hash'' dflt = dict_get d ''hash'' PNone"
  by (simp add: listing_record_def dict_get_def)

lemma has_hash_dict_set: "k \<noteq> ''hash'' \<Longrightarrow> has_hash (dict_set d k v) = has_hash d"
  by (simp add: has_hash_def dict_get_dict_set)

lemma has_hash_nonempty:
  "has_hash r \<Longrightarrow> dict_get r ''hash'' PNone \<noteq> PNone \<and> dict_get r ''hash'' PNone \<noteq> PStr []"
  by (auto simp: has_hash_def)

lemma no_hash:
  "map_of d ''hash'' = None \<or> map_of d ''hash'' = Some (PStr []) \<Longrightarrow> \<not> has_hash d"
  by (auto simp: has_hash_def dict_get_def)

lemma prepare_dicts:
  "prepare str_of (map PDict ds) st =
     (\<lparr>submissions_data = submissions_data st @ map (listing_record str_of) (filter has_hash ds),
       submission_urls = submission_urls st @ map (submission_url_of str_of) (filter has_hash ds),
       prep_log = prep_log st @
         map (\<lambda>d. if has_hash d then Log INFO ''Added submission''
                  else Log WARNING ''Submission without hash found'') ds\<rparr>, None)"
  by (induction ds arbitrary: st) simp_all

lemma prepare_has_hash:
  "prepare str_of entries st = (st', err) \<Longrightarrow>
   set (submissions_data st') \<subseteq> set (submissions_data st) \<union> {r. has_hash r} \<and>
   set (prep_log st') \<subseteq> set (prep_log st) \<union> {ev. \<exists>l m. ev = Log l m}"
proof (induction entries arbitrary: st)
  case Nil
  then show ?case by auto
next
  case (Cons e entries)
  show ?case
  proof (cases e)
    case (PDict d)
    show ?thesis
    proof (cases "has_hash d")
      case True
      with Cons.prems PDict have "prepare str_of entries
          \<lparr>submissions_data = submissions_data st @ [listing_record str_of d],
           submission_urls = submission_urls st @ [submission_url_of str_of d],
           prep_log = prep_log st @ [Log INFO ''Added submission'']\<rparr> = (st', err)"
        by simp
      from Cons.IH[OF this] True show ?thesis
        by (auto simp: has_hash_listing_record)
    next
      case False
      with Cons.prems PDict have "prepare str_of entries
          (st\<lparr>prep_log := prep_log st @ [Log WARNING ''Submission without hash found'']\<rparr>) =
          (st', err)"
        by simp
      from Cons.IH[OF this] show ?thesis by auto
    qed
  qed (use Cons.prems in auto)
qed

lemma prepare_tv_has_hash:
  "prepare_tv ulower entries st = (st', err) \<Longrightarrow>
   set (submissions_data_tv st') \<subseteq>
     set (submissions_data_tv st) \<union> {r. PDict r \<in> set entries \<and> has_hash r} \<and>
   set (prep_log_tv st') \<subseteq> set (prep_log_tv st) \<union> {ev. \<exists>l m. ev = Log l m}"
proof (induction entries arbitrary: st)
  case Nil
  then show ?case by auto
next
  case (Cons e entries)
  show ?case
  proof (cases e)
    case (PDict d)
    show ?thesis
    proof (cases "dict_get d ''category'' (PStr [])")
      case (PStr c)
      consider (added) "has_hash d \<and> py_lower ulower (py_strip c) = ustr ''title sequence''"
        | (nohash) "\<not> has_hash d"
        | (skipped) "has_hash d" "py_lower ulower (py_strip c) \<noteq> ustr ''title sequence''"
        by blast
      then show ?thesis
      proof cases
        case added
        with Cons.prems PDict PStr have "prepare_tv ulower entries
            \<lparr>submissions_data_tv = submissions_data_tv st @ [d],
             prep_log_tv = prep_log_tv st @ [Log INFO ''Added submission'']\<rparr> = (st', err)"
          by (simp add: Let_def)
        from Cons.IH[OF this] added PDict show ?thesis by auto
      next
        case nohash
        with Cons.prems PDict PStr have "prepare_tv ulower entries
            (st\<lparr>prep_log_tv :=
                 prep_log_tv st @ [Log WARNING ''Submission without hash found'']\<rparr>) = (st', err)"
          by (simp add: Let_def)
        from Cons.IH[OF this] show ?thesis by auto
      next
        case skipped
        with Cons.prems PDict PStr have "prepare_tv ulower entries
            (st\<lparr>prep_log_tv := prep_log_tv st @ [Log INFO ''Skipping submission'']\<rparr>) =
            (st', err)"
          by (simp add: Let_def)
        from Cons.IH[OF this] show ?thesis by auto
      qed
    qed (use Cons.prems PDict in auto)
  qed (use Cons.prems in auto)
qed

lemma prepare_tv_dicts:
  assumes "\<forall>d \<in> set ds. \<exists>c. dict_get d ''category'' (PStr []) = PStr c"
  shows "prepare_tv ulower (map PDict ds) st =
     (\<lparr>submissions_data_tv = submissions_data_tv st @
         filter (\<lambda>d. has_hash d \<and> title_sequence ulower d) ds,
       prep_log_tv = prep_log_tv st @
         map (\<lambda>d. if has_hash d \<and> title_sequence ulower d then Log INFO ''Added submission''
                  else if \<not> has_hash d then Log WARNING ''Submission without hash found''
                  else Log INFO ''Skipping submission'') ds\<rparr>, None)"
  using assms
proof (induction ds arbitrary: st)
  case Nil
  show ?case by simp
next
  case (Cons d ds)
  from Cons.prems obtain c where c: "dict_get d ''category'' (PStr []) = PStr c" by auto
  from Cons.prems have rest: "\<forall>d \<in> set ds. \<exists>c. dict_get d ''category'' (PStr []) = PStr c"
    by simp
  show ?case
    by (simp add: c Cons.IH[OF rest] title_sequence_def Let_def)
qed

lemma harvest_has_hash:
  assumes "mset completed = mset [0..<length submissions]" "\<forall>r \<in> set submissions. has_hash r"
  shows "\<forall>r \<in> set (extract_all_votes (\<lambda>i. extract_votes decimal (b i)) completed submissions).
    has_hash r"
proof
  fix r
  assume "r \<in> set (extract_all_votes (\<lambda>i. extract_votes decimal (b i)) completed submissions)"
  then obtain i where i: "i \<in> set completed"
    and r: "r = (case extract_votes decimal (b i) (submissions ! i) of
                 Inr updated_submission \<Rightarrow> updated_submission
               | Inl e \<Rightarrow> dict_set (submissions ! i) ''votes'' PNone)"
    by (auto simp: extract_all_votes_def)
  have "set completed = set [0..<length submissions]"
    using assms(1) by (rule mset_eq_setD)
  with i have "i < length submissions" by simp
  with assms(2) have h: "has_hash (submissions ! i)" by simp
  show "has_hash r"
    unfolding r using h
    by (auto simp: extract_votes_def has_hash_dict_set split: session.splits attempt.splits)
qed

lemma harvest_tv_has_hash:
  assumes "mset completed = mset [0..<length submissions]" "\<forall>r \<in> set submissions. has_hash r"
  shows "\<forall>r \<in> set (extract_all_submission_details
      (\<lambda>i s. Inr (extract_submission_details decimal str_of (b i) s)) completed submissions).
    has_hash r"
proof
  fix r
  assume "r \<in> set (extract_all_submission_details
      (\<lambda>i s. Inr (extract_submission_details decimal str_of (b i) s)) completed submissions)"
  then obtain i where i: "i \<in> set completed"
    and r: "r = extract_submission_details decimal str_of (b i) (submissions ! i)"
    by (auto simp: extract_all_submission_details_def)
  have "set completed = set [0..<length submissions]"
    using assms(1) by (rule mset_eq_setD)
  with i have "i < length submissions" by simp
  with assms(2) have h: "has_hash (submissions ! i)" by simp
  show "has_hash r"
    unfolding r using h
    by (cases "b i") (simp_all add: extract_submission_details_def Let_def has_hash_dict_set)
qed

lemma write_csv_events:
  "ev \<in> set (write_csv str_of xs) \<Longrightarrow> (\<exists>n rows. ev = CsvWritten n rows) \<or> (\<exists>l m. ev = Log l m)"
  by (auto simp: write_csv_def split: prod.splits option.splits)

lemma write_csv_tv_events:
  "ev \<in> set (write_csv_tv str_of xs) \<Longrightarrow>
   (\<exists>n rows. ev = CsvWritten n rows) \<or> (\<exists>l m. ev = Log l m)"
  by (auto simp: write_csv_tv_def split: prod.splits option.splits)

lemma main_detail_tasks:
  assumes "DetailTask r \<in> set (main env)"
  shows "has_hash r"
proof -
  obtain st err where p: "prepare (py_str env)
      (case fetch_all_submissions (listing env) (fetch_completed env)
              (case discover_last_page ''page 1'' (first_page env) of Inr lp \<Rightarrow> lp | Inl m \<Rightarrow> PNone)
       of Inr xs \<Rightarrow> xs | Inl e \<Rightarrow> [])
      \<lparr>submissions_data = [], submission_urls = [], prep_log = []\<rparr> = (st, err)"
    by (meson surj_pair)
  have inv: "set (submissions_data st) \<subseteq> {r. has_hash r}"
    and logs: "set (prep_log st) \<subseteq> {ev. \<exists>l m. ev = Log l m}"
    using prepare_has_hash[OF p] by simp_all
  have "DetailTask r \<notin> set (prep_log st)" using logs by auto
  moreover have "DetailTask r \<notin> set (write_csv s xs)" for s xs
    using write_csv_events[of "DetailTask r" s xs] by auto
  ultimately have "r \<in> set (submissions_data st)"
    using assms p
    by (auto simp: main_def split: sum.splits prod.splits option.splits)
  with inv show ?thesis by auto
qed

lemma main_tv_detail_tasks:
  assumes "DetailTask r \<in> set (main_tv env)"
  shows "has_hash r"
proof -
  obtain st err where p: "prepare_tv (unicode_lower env)
      (case fetch_all_submissions (listing env) (fetch_completed env)
              (case discover_last_page ''the first page'' (first_page env) of
                 Inr lp \<Rightarrow> lp | Inl m \<Rightarrow> PNone)
       of Inr xs \<Rightarrow> xs | Inl e \<Rightarrow> [])
      \<lparr>submissions_data_tv = [], prep_log_tv = []\<rparr> = (st, err)"
    by (meson surj_pair)
  have inv: "set (submissions_data_tv st) \<subseteq> {r. has_hash r}"
    and logs: "set (prep_log_tv st) \<subseteq> {ev. \<exists>l m. ev = Log l m}"
    using prepare_tv_has_hash[OF p] by auto
  have "DetailTask r \<notin> set (prep_log_tv st)" using logs by auto
  moreover have "DetailTask r \<notin> set (write_csv_tv s xs)" for s xs
    using write_csv_tv_events[of "DetailTask r" s xs] by auto
  ultimately have "r \<in> set (submissions_data_tv st)"
    using assms p
    by (auto simp: main_tv_def Let_def split: sum.splits prod.splits option.splits)
  with inv show ?thesis by auto
qed

lemma hashes_of_prepared:
  "map (\<lambda>r. dict_get r ''hash'' PNone) (map (listing_record str_of) (filter has_hash ds)) =
   filter truthy (map (\<lambda>d. dict_get d ''hash'' PNone) ds)"
  by (induction ds) (simp_all add: hash_listing_record has_hash_def)

lemma urls_of_prepared:
  "map (submission_url_of str_of) (filter has_hash ds) =
   map (\<lambda>h. SUBMISSION_URL_TEMPLATE @ py_format str_of h)
     (filter truthy (map (\<lambda>d. dict_get d ''hash'' PNone) ds))"
  by (induction ds) (simp_all add: submission_url_of_def has_hash_def)

lemma distinct_map_same_kernel:
  "(\<forall>x \<in> set xs. \<forall>y \<in> set xs. f x = f y \<longleftrightarrow> g x = g y) \<Longrightarrow>
   distinct (map f xs) = distinct (map g xs)"
proof (induction xs)
  case Nil
  show ?case by simp
next
  case (Cons x xs)
  then have "distinct (map f xs) = distinct (map g xs)" by simp
  moreover have "f x \<in> f ` set xs \<longleftrightarrow> g x \<in> g ` set xs"
    using Cons.prems by (auto simp: image_iff)
  ultimately show ?case by simp
qed

lemma fetch_all_submissions_concat:
  "fetch_all_submissions api completed (PInt n) =
   Inr (concat (map (\<lambda>i. contribution (fetch_page api ([1..<Suc (nat n)] ! i))) completed))"
  by (simp add: fetch_all_submissions_def merge_completed_concat comp_def)

text \<open>
  C4. Step 3 of both scripts starts from empty lists. An entry whose \<^verbatim>\<open>hash\<close> is
  missing or the empty string fails the test \<open>has_hash\<close>, and a record that passes it
  has a hash that is neither \<open>PNone\<close> nor the empty string. Every prepared record
  passes the test, and so does every record the detail harvester returns, for any
  browser sessions and any completion order; every detail task of a run of \<^verbatim>\<open>main\<close>
  is for a record that passes it. When the entries are dicts, harv.py prepares exactly
  the records of the entries that pass, in order, with one URL each, and logs one
  warning for each entry that does not; harv_titles_votes.py (with string categories)
  logs the same warning for each such entry and keeps only entries that pass.
\<close>

theorem hashless_entries_excluded:
  assumes "prepare str_of entries
      \<lparr>submissions_data = [], submission_urls = [], prep_log = []\<rparr> = (st, err)"
    and "prepare_tv ulower entries \<lparr>submissions_data_tv = [], prep_log_tv = []\<rparr> = (st_tv, err_tv)"
    and "mset completed = mset [0..<length (submissions_data st)]"
    and "mset completed_tv = mset [0..<length (submissions_data_tv st_tv)]"
  shows
    "(\<forall>d. map_of d ''hash'' = None \<or> map_of d ''hash'' = Some (PStr []) \<longrightarrow> \<not> has_hash d) \<and>
     (\<forall>r. has_hash r \<longrightarrow>
        dict_get r ''hash'' PNone \<noteq> PNone \<and> dict_get r ''hash'' PNone \<noteq> PStr []) \<and>
     (\<forall>r \<in> set (submissions_data st). has_hash r) \<and>
     (\<forall>r \<in> set (extract_all_votes (\<lambda>i. extract_votes decimal (b i)) completed (submissions_data st)).
        has_hash r) \<and>
     (\<forall>r \<in> set (submissions_data_tv st_tv). PDict r \<in> set entries \<and> has_hash r) \<and>
     (\<forall>r \<in> set (extract_all_submission_details
           (\<lambda>i s. Inr (extract_submission_details decimal str_of (b_tv i) s)) completed_tv
           (submissions_data_tv st_tv)). has_hash r) \<and>
     (\<forall>ds. entries = map PDict ds \<longrightarrow>
        err = None \<and>
        submissions_data st = map (listing_record str_of) (filter has_hash ds) \<and>
        submission_urls st = map (submission_url_of str_of) (filter has_hash ds) \<and>
        prep_log st =
          map (\<lambda>d. if has_hash d then Log INFO ''Added submission''
                   else Log WARNING ''Submission without hash found'') ds) \<and>
     (\<forall>ds. entries = map PDict ds \<and>
        (\<forall>d \<in> set ds. \<exists>c. dict_get d ''category'' (PStr []) = PStr c) \<longrightarrow>
        err_tv = None \<and>
        prep_log_tv st_tv =
          map (\<lambda>d. if has_hash d \<and> title_sequence ulower d then Log INFO ''Added submission''
                   else if \<not> has_hash d then Log WARNING ''Submission without hash found''
                   else Log INFO ''Skipping submission'') ds) \<and>
     (\<forall>r. DetailTask r \<in> set (main env) \<longrightarrow> has_hash r) \<and>
     (\<forall>r. DetailTask r \<in> set (main_tv env_tv) \<longrightarrow> has_hash r)"
proof -
  have 1: "\<forall>d. map_of d ''hash'' = None \<or> map_of d ''hash'' = Some (PStr []) \<longrightarrow> \<not> has_hash d"
    using no_hash by blast
  have 2: "\<forall>r. has_hash r \<longrightarrow>
        dict_get r ''hash'' PNone \<noteq> PNone \<and> dict_get r ''hash'' PNone \<noteq> PStr []"
    using has_hash_nonempty by blast
  have 3: "\<forall>r \<in> set (submissions_data st). has_hash r"
    using prepare_has_hash[OF assms(1)] by auto
  have 4: "\<forall>r \<in> set (extract_all_votes (\<lambda>i. extract_votes decimal (b i)) completed (submissions_data st)).
        has_hash r"
    using assms(3) 3 by (rule harvest_has_hash)
  have 5: "\<forall>r \<in> set (submissions_data_tv st_tv). PDict r \<in> set entries \<and> has_hash r"
    using prepare_tv_has_hash[OF assms(2)] by auto
  then have h5: "\<forall>r \<in> set (submissions_data_tv st_tv). has_hash r" by simp
  have 6: "\<forall>r \<in> set (extract_all_submission_details
           (\<lambda>i s. Inr (extract_submission_details decimal str_of (b_tv i) s)) completed_tv
           (submissions_data_tv st_tv)). has_hash r"
    using assms(4) h5 by (rule harvest_tv_has_hash)
  have 7: "\<forall>ds. entries = map PDict ds \<longrightarrow>
        err = None \<and>
        submissions_data st = map (listing_record str_of) (filter has_hash ds) \<and>
        submission_urls st = map (submission_url_of str_of) (filter has_hash ds) \<and>
        prep_log st =
          map (\<lambda>d. if has_hash d then Log INFO ''Added submission''
                   else Log WARNING ''Submission without hash found'') ds"
  proof (intro allI impI)
    fix ds assume "entries = map PDict ds"
    with assms(1) have "(st, err) =
      (\<lparr>submissions_data = map (listing_record str_of) (filter has_hash ds),
        submission_urls = map (submission_url_of str_of) (filter has_hash ds),
        prep_log = map (\<lambda>d. if has_hash d then Log INFO ''Added submission''
                  else Log WARNING ''Submission without hash found'') ds\<rparr>, None)"
      by (simp add: prepare_dicts)
    then show "err = None \<and>
        submissions_data st = map (listing_record str_of) (filter has_hash ds) \<and>
        submission_urls st = map (submission_url_of str_of) (filter has_hash ds) \<and>
        prep_log st =
          map (\<lambda>d. if has_hash d then Log INFO ''Added submission''
                   else Log WARNING ''Submission without hash found'') ds"
      by simp
  qed
  have 8: "\<forall>ds. entries = map PDict ds \<and>
        (\<forall>d \<in> set ds. \<exists>c. dict_get d ''category'' (PStr []) = PStr c) \<longrightarrow>
        err_tv = None \<and>
        prep_log_tv st_tv =
          map (\<lambda>d. if has_hash d \<and> title_sequence ulower d then Log INFO ''Added submission''
                   else if \<not> has_hash d then Log WARNING ''Submission without hash found''
                   else Log INFO ''Skipping submission'') ds"
  proof (intro allI impI)
    fix ds assume a: "entries = map PDict ds \<and>
        (\<forall>d \<in> set ds. \<exists>c. dict_get d ''category'' (PStr []) = PStr c)"
    then have "\<forall>d \<in> set ds. \<exists>c. dict_get d ''category'' (PStr []) = PStr c" by simp
    from prepare_tv_dicts[OF this, where st = "\<lparr>submissions_data_tv = [], prep_log_tv = []\<rparr>"
        and ulower = ulower] a assms(2)
    have "(st_tv, err_tv) =
      (\<lparr>submissions_data_tv = filter (\<lambda>d. has_hash d \<and> title_sequence ulower d) ds,
        prep_log_tv = map (\<lambda>d. if has_hash d \<and> title_sequence ulower d then Log INFO ''Added submission''
                   else if \<not> has_hash d then Log WARNING ''Submission without hash found''
                   else Log INFO ''Skipping submission'') ds\<rparr>, None)"
      by simp
    then show "err_tv = None \<and>
        prep_log_tv st_tv =
          map (\<lambda>d. if has_hash d \<and> title_sequence ulower d then Log INFO ''Added submission''
                   else if \<not> has_hash d then Log WARNING ''Submission without hash found''
                   else Log INFO ''Skipping submission'') ds"
      by simp
  qed
  have 9: "\<forall>r. DetailTask r \<in> set (main env) \<longrightarrow> has_hash r"
    using main_detail_tasks by blast
  have 10: "\<forall>r. DetailTask r \<in> set (main_tv env_tv) \<longrightarrow> has_hash r"
    using main_tv_detail_tasks by blast
  from 1 2 3 4 5 6 7 8 9 10 show ?thesis by blast
qed

theorem hashless_entries_excluded_witness:
  "prep_log (fst (prepare (\<lambda>v. [])
      [PDict [(''hash'', PStr (ustr ''a'')), (''category'', PStr (ustr ''Title Sequence''))],
       PDict [(''title'', PStr (ustr ''x''))], PDict [(''hash'', PStr [])]]
      \<lparr>submissions_data = [], submission_urls = [], prep_log = []\<rparr>)) =
     [Log INFO ''Added submission'', Log WARNING ''Submission without hash found'',
      Log WARNING ''Submission without hash found''] \<and>
   map (\<lambda>r. dict_get r ''hash'' PNone) (submissions_data (fst (prepare (\<lambda>v. [])
      [PDict [(''hash'', PStr (ustr ''a'')), (''category'', PStr (ustr ''Title Sequence''))],
       PDict [(''title'', PStr (ustr ''x''))], PDict [(''hash'', PStr [])]]
      \<lparr>submissions_data = [], submission_urls = [], prep_log = []\<rparr>))) = [PStr (ustr ''a'')]"
proof -
  let ?ds = "[[(''hash'', PStr (ustr ''a'')), (''category'', PStr (ustr ''Title Sequence''))],
       [(''title'', PStr (ustr ''x''))], [(''hash'', PStr [])]]"
  let ?entries = "[PDict [(''hash'', PStr (ustr ''a'')), (''category'', PStr (ustr ''Title Sequence''))],
       PDict [(''title'', PStr (ustr ''x''))], PDict [(''hash'', PStr [])]]"
  let ?p = "prepare (\<lambda>v. []) ?entries
      \<lparr>submissions_data = [], submission_urls = [], prep_log = []\<rparr>"
  let ?q = "prepare_tv (\<lambda>s. s) ?entries \<lparr>submissions_data_tv = [], prep_log_tv = []\<rparr>"
  have 1: "?p = (fst ?p, snd ?p)" and 2: "?q = (fst ?q, snd ?q)" by simp_all
  have 3: "mset [0] = mset [0..<length (submissions_data (fst ?p))]"
    by (simp add: has_hash_def dict_get_def ustr_def)
  have 4: "mset [0] = mset [0..<length (submissions_data_tv (fst ?q))]"
    by (simp add: has_hash_def dict_get_def py_strip_def is_space_def py_lower_def
        ascii_lower_def ustr_def)
  have e: "?entries = map PDict ?ds" by simp
  note t = hashless_entries_excluded[OF 1 2 3 4]
  from t[THEN conjunct2, THEN conjunct2, THEN conjunct2, THEN conjunct2, THEN conjunct2,
      THEN conjunct2, THEN conjunct1, rule_format, OF e]
  have "submissions_data (fst ?p) = map (listing_record (\<lambda>v. [])) (filter has_hash ?ds)"
    and "prep_log (fst ?p) =
          map (\<lambda>d. if has_hash d then Log INFO ''Added submission''
                   else Log WARNING ''Submission without hash found'') ?ds"
    by blast+
  then show ?thesis
    by (simp add: has_hash_def dict_get_def listing_record_def)
qed

section \<open>The merged set is not de-duplicated\<close>

text \<open>
  C5, as the code has it. The merged raw entries are the concatenation, in completion
  order, of what each page task adds, and step 3 of harv.py turns every raw entry with a
  hash into one record with that hash: nothing is de-duplicated. The hashes of the
  merged records are the hashes of the raw entries that have one, in the same order and
  with the same repetitions, so they are distinct exactly when those of the raw entries
  are; the URLs are built from them, and when the hashes are strings the URLs are
  distinct exactly when the hashes are.
\<close>

theorem merged_hashes_follow_raw_entries:
  assumes "prepare str_of (map PDict ds)
      \<lparr>submissions_data = [], submission_urls = [], prep_log = []\<rparr> = (st, err)"
  shows
    "fetch_all_submissions api completed (PInt n) =
       Inr (concat (map (\<lambda>i. contribution (fetch_page api ([1..<Suc (nat n)] ! i))) completed)) \<and>
     map (\<lambda>r. dict_get r ''hash'' PNone) (submissions_data st) =
       filter truthy (map (\<lambda>d. dict_get d ''hash'' PNone) ds) \<and>
     (distinct (map (\<lambda>r. dict_get r ''hash'' PNone) (submissions_data st)) \<longleftrightarrow>
      distinct (filter truthy (map (\<lambda>d. dict_get d ''hash'' PNone) ds))) \<and>
     submission_urls st =
       map (\<lambda>h. SUBMISSION_URL_TEMPLATE @ py_format str_of h)
         (filter truthy (map (\<lambda>d. dict_get d ''hash'' PNone) ds)) \<and>
     ((\<forall>d \<in> set ds. \<exists>h. dict_get d ''hash'' PNone = PStr h) \<longrightarrow>
      (distinct (submission_urls st) \<longleftrightarrow>
       distinct (filter truthy (map (\<lambda>d. dict_get d ''hash'' PNone) ds))))"
proof -
  have st: "submissions_data st = map (listing_record str_of) (filter has_hash ds)"
    and urls: "submission_urls st = map (submission_url_of str_of) (filter has_hash ds)"
    using assms by (auto simp: prepare_dicts)
  have 1: "fetch_all_submissions api completed (PInt n) =
       Inr (concat (map (\<lambda>i. contribution (fetch_page api ([1..<Suc (nat n)] ! i))) completed))"
    by (rule fetch_all_submissions_concat)
  have 2: "map (\<lambda>r. dict_get r ''hash'' PNone) (submissions_data st) =
       filter truthy (map (\<lambda>d. dict_get d ''hash'' PNone) ds)"
    unfolding st by (rule hashes_of_prepared)
  have 3: "submission_urls st =
       map (\<lambda>h. SUBMISSION_URL_TEMPLATE @ py_format str_of h)
         (filter truthy (map (\<lambda>d. dict_get d ''hash'' PNone) ds))"
    unfolding urls by (rule urls_of_prepared)
  have 4: "distinct (submission_urls st) \<longleftrightarrow>
       distinct (filter truthy (map (\<lambda>d. dict_get d ''hash'' PNone) ds))"
    if strs: "\<forall>d \<in> set ds. \<exists>h. dict_get d ''hash'' PNone = PStr h"
  proof -
    let ?hs = "filter truthy (map (\<lambda>d. dict_get d ''hash'' PNone) ds)"
    have strs': "\<forall>x \<in> set ?hs. \<exists>h. x = PStr h"
      using strs by auto
    have "\<forall>x \<in> set ?hs. \<forall>y \<in> set ?hs.
        (SUBMISSION_URL_TEMPLATE @ py_format str_of x = SUBMISSION_URL_TEMPLATE @ py_format str_of y)
          \<longleftrightarrow> (x = y)"
    proof (intro ballI)
      fix x y assume "x \<in> set ?hs" "y \<in> set ?hs"
      with strs' obtain hx hy where "x = PStr hx" "y = PStr hy" by blast
      then show "(SUBMISSION_URL_TEMPLATE @ py_format str_of x =
          SUBMISSION_URL_TEMPLATE @ py_format str_of y) \<longleftrightarrow> (x = y)"
        by (simp add: py_format_def)
    qed
    then have "distinct (map (\<lambda>h. SUBMISSION_URL_TEMPLATE @ py_format str_of h) ?hs) =
        distinct (map (\<lambda>h. h) ?hs)"
      by (rule distinct_map_same_kernel)
    then show ?thesis unfolding 3 by simp
  qed
  from 1 2 3 4 show ?thesis by simp
qed

theorem merged_hashes_follow_raw_entries_witness:
  "map (\<lambda>r. dict_get r ''hash'' PNone) (submissions_data (fst (prepare (\<lambda>v. [])
      (map PDict [[(''hash'', PStr (ustr ''a''))], [(''title'', PStr (ustr ''x''))], [(''hash'', PStr (ustr ''b''))]])
      \<lparr>submissions_data = [], submission_urls = [], prep_log = []\<rparr>))) = [PStr (ustr ''a''), PStr (ustr ''b'')] \<and>
   distinct (submission_urls (fst (prepare (\<lambda>v. [])
      (map PDict [[(''hash'', PStr (ustr ''a''))], [(''title'', PStr (ustr ''x''))], [(''hash'', PStr (ustr ''b''))]])
      \<lparr>submissions_data = [], submission_urls = [], prep_log = []\<rparr>)))"
proof -
  let ?ds = "[[(''hash'', PStr (ustr ''a''))], [(''title'', PStr (ustr ''x''))], [(''hash'', PStr (ustr ''b''))]]"
  let ?p = "prepare (\<lambda>v. []) (map PDict ?ds)
      \<lparr>submissions_data = [], submission_urls = [], prep_log = []\<rparr>"
  have 1: "?p = (fst ?p, snd ?p)" by simp
  note t = merged_hashes_follow_raw_entries[OF 1, of "\<lambda>n. RequestRaises" "[]" 0]
  from t have "map (\<lambda>r. dict_get r ''hash'' PNone) (submissions_data (fst ?p)) =
       filter truthy (map (\<lambda>d. dict_get d ''hash'' PNone) ?ds)"
    and "submission_urls (fst ?p) =
       map (\<lambda>h. SUBMISSION_URL_TEMPLATE @ py_format (\<lambda>v. []) h)
         (filter truthy (map (\<lambda>d. dict_get d ''hash'' PNone) ?ds))"
    by blast+
  then show ?thesis
    by (simp add: dict_get_def py_format_def ustr_def SUBMISSION_URL_TEMPLATE_def)
qed

text \<open>
  C5 as stated fails: two pages that each hold an entry with the hash \<open>abc\<close> give a
  merged set with two records of that hash (and of the same URL).
\<close>

theorem duplicate_hashes_counterexample:
  "fetch_all_submissions
     (\<lambda>n. Response 200 (Some (PDict [(''data'', PList [PDict [(''hash'', PStr (ustr ''abc''))]]),
                                       (''meta'', PDict [(''last_page'', PInt 2)])])))
     [0, 1] (PInt 2) =
     Inr [PDict [(''hash'', PStr (ustr ''abc''))], PDict [(''hash'', PStr (ustr ''abc''))]] \<and>
   map (\<lambda>r. dict_get r ''hash'' PNone) (submissions_data (fst (prepare (\<lambda>v. [])
      [PDict [(''hash'', PStr (ustr ''abc''))], PDict [(''hash'', PStr (ustr ''abc''))]]
      \<lparr>submissions_data = [], submission_urls = [], prep_log = []\<rparr>))) =
     [PStr (ustr ''abc''), PStr (ustr ''abc'')] \<and>
   \<not> distinct (map (\<lambda>r. dict_get r ''hash'' PNone) (submissions_data (fst (prepare (\<lambda>v. [])
      [PDict [(''hash'', PStr (ustr ''abc''))], PDict [(''hash'', PStr (ustr ''abc''))]]
      \<lparr>submissions_data = [], submission_urls = [], prep_log = []\<rparr>)))) \<and>
   \<not> distinct (submission_urls (fst (prepare (\<lambda>v. [])
      [PDict [(''hash'', PStr (ustr ''abc''))], PDict [(''hash'', PStr (ustr ''abc''))]]
      \<lparr>submissions_data = [], submission_urls = [], prep_log = []\<rparr>)))"
  by (simp add: fetch_all_submissions_def fetch_page_def contribution_def dict_get_def
      has_hash_def listing_record_def submission_url_of_def upt_conv_Cons ustr_def)


section \<open>The category filter\<close>

lemma py_lower_ascii:
  "list_all (\<lambda>c. c < 128) s \<Longrightarrow> py_lower ulower s = map ascii_lower s"
  by (simp add: py_lower_def)





section \<open>The CSV writers\<close>







text \<open>
  harv.py passes its records, which carry the key \<^verbatim>\<open>hash\<close>, to a
  \<^verbatim>\<open>DictWriter\<close> whose field names do not list it: the first row raises ValueError,
  the \<^verbatim>\<open>except\<close> logs it, and the file keeps the header only.
\<close>

lemma write_csv_harv_header_only:
  "write_csv str_of
     (extract_all_votes (\<lambda>i. extract_votes decimal (Script (Returns [ustr ''12 votes''])))
        [0]
        [listing_record str_of [(''hash'', PStr (ustr ''h'')), (''title'', PStr (ustr ''T''))]]) =
   [CsvWritten ''submissions.csv''
      [[ustr ''url'', ustr ''title'', ustr ''name'', ustr ''category'', ustr ''votes'']],
    Log ERROR ''Error writing to CSV'']"
  by (simp add: write_csv_def keys_harv_def extract_all_votes_def extract_votes_def
      listing_record_def dict_set_def dict_to_list_def del: votes_loop.simps)

end
